theory Spec2Isabelle
  imports Main
begin

section \<open>Data model\<close>

text \<open>
  Modem handles, rigs, dial contexts and connections are external objects of which the
  program only uses the identity. Each is a natural number; a fresh one is the length of
  the trace at the moment it is created.
\<close>

type_synonym handle = nat
type_synonym vfo = nat
type_synonym ctx = nat
type_synonym conn = nat

text \<open>
  Go errors. \<open>Canceled\<close> is \<open>context.Canceled\<close>, \<open>Failure\<close> an error of an external
  collaborator, \<open>Errorf\<close> a \<open>fmt.Errorf\<close> that wraps nothing and \<open>Wrapf\<close> a
  \<open>fmt.Errorf\<close> with the verb \<open>%w\<close>, which \<open>errors.Is\<close> looks through.
\<close>

datatype error = Canceled | Failure string | Errorf string | Wrapf string error

fun errors_Is_Canceled :: "error \<Rightarrow> bool" where
  "errors_Is_Canceled Canceled = True"
| "errors_Is_Canceled (Failure m) = False"
| "errors_Is_Canceled (Errorf m) = False"
| "errors_Is_Canceled (Wrapf m e) = errors_Is_Canceled e"

text \<open>\<open>transport.URL\<close>, with \<open>Params\<close> the \<open>url.Values\<close> multimap.\<close>

record url =
  Scheme :: string
  Host :: string
  User :: "string option"
  Target :: string
  Params :: "(string \<times> string list) list"

definition Values_Get :: "(string \<times> string list) list \<Rightarrow> string \<Rightarrow> string" where
  "Values_Get vs k = (case map_of vs k of Some (v # rest) \<Rightarrow> v | Some [] \<Rightarrow> [] | None \<Rightarrow> [])"

definition Values_Set :: "(string \<times> string list) list \<Rightarrow> string \<Rightarrow> string \<Rightarrow> (string \<times> string list) list" where
  "Values_Set vs k v = (k, [v]) # filter (\<lambda>p. fst p \<noteq> k) vs"

definition SetUser :: "url \<Rightarrow> string \<Rightarrow> url" where
  "SetUser u call = u\<lparr>User := Some call\<rparr>"

definition Username :: "url \<Rightarrow> string" where
  "Username u = (case User u of None \<Rightarrow> [] | Some n \<Rightarrow> n)"

record VaraConfig =
  vHost :: string
  CmdPort :: int
  DataPort :: int
  PTTControl :: bool
  Rig :: string

record Config =
  ConnectAliases :: "(string \<times> string) list"
  Locator :: string
  Ardop_Addr :: string
  Ardop_ARQBandwidth :: "bool \<times> nat"
  Ardop_CWID :: bool
  Ardop_PTTControl :: bool
  Ardop_Rig :: string
  Pactor_Path :: string
  Pactor_Baudrate :: int
  Pactor_InitScript :: string
  VaraHF :: VaraConfig
  VaraFM :: VaraConfig
  AX25_Port :: string
  SerialTNC_Path :: string
  SerialTNC_HBaud :: int
  SerialTNC_SerialBaud :: int

record Options =
  MyCall :: string
  RadioOnly :: bool
  IgnoreBusy :: bool

datatype logmsg =
    LogError error
  | LogRadioOnlySSID
  | LogRadioOnlyUnavailable string
  | LogUnableQSY error
  | LogQSY string string
  | LogQSX string int
  | LogIgnoringBusy
  | LogWaitingClear
  | LogConnecting string string
  | LogCancelled
  | LogUnableConnect error
  | LogExchangeFailed error
  | LogDisconnected
  | LogArdopInitialized string

text \<open>Every call that leaves the program is an event of the trace, in program order.\<close>

datatype event =
    EvDebug string
  | EvLog logmsg
  | EvSleep nat
  | EvUpdateStatus "url option"
  | EvPing handle
  | EvClose handle
  | EvOpenTCP handle string string string
  | EvSetARQBandwidth handle "bool \<times> nat"
  | EvSetCWID handle bool
  | EvVersion handle
  | EvRegisterDialer string handle
  | EvSetPTT handle vfo
  | EvOpenModem handle string int string string string
  | EvNewModem handle string string string int int
  | EvGetFreq vfo
  | EvSetFreq vfo int
  | EvBusy "handle option"
  | EvWithCancel ctx
  | EvCancel ctx
  | EvDial ctx url
  | EvLogConn string int "conn option" "error option"
  | EvExchange conn string

text \<open>
  The package-level variables. \<open>dialCancelFunc\<close> is \<open>None\<close> for the initial \<open>func() {}\<close>
  and \<open>Some c\<close> for the closure \<open>func() { dialing = nil; cancel() }\<close> over the cancel
  function of context \<open>c\<close>.
\<close>

record world =
  dialing :: "url option"
  adTNC :: "handle option"
  pModem :: "handle option"
  varaHFModem :: "handle option"
  varaFMModem :: "handle option"
  dialCancelFunc :: "ctx option"
  trace :: "event list"

text \<open>
  What the program reads from outside itself: the configuration, the command-line options,
  the loaded rigs, the library functions it calls, and the answers of the external
  collaborators. An answer is a function of the whole history of calls up to and including
  the call being answered, so that any sequence of answers can be expressed.
  \<open>abortDuringDial\<close> says whether another task invokes the package-level cancellation hook
  while the dial is blocked. \<open>VFOForTransport\<close> is a function of the program that is not
  among the sources, \<open>ParseURL\<close> a function of the transport library; both are parameters.
\<close>

record env =
  config :: Config
  fOptions :: Options
  rigs :: "(string \<times> vfo) list"
  ParseURL :: "string \<Rightarrow> error + url"
  VFOForTransport :: "string \<Rightarrow> vfo \<times> string \<times> bool \<times> error option"
  ParseFreq :: "string \<Rightarrow> error + int"
  Sprint :: "int \<Rightarrow> string"
  respErr :: "event list \<Rightarrow> error option"
  respBool :: "event list \<Rightarrow> bool"
  respInt :: "event list \<Rightarrow> int"
  respStr :: "event list \<Rightarrow> string"
  abortDuringDial :: "event list \<Rightarrow> bool"

text \<open>
  Modelled from the spec: the scheme constants are declared in a file that is not among
  the sources; their values are the scheme names of the connection descriptor syntax.
\<close>

definition MethodArdop :: string where "MethodArdop = ''ardop''"
definition MethodPactor :: string where "MethodPactor = ''pactor''"
definition MethodVaraHF :: string where "MethodVaraHF = ''varahf''"
definition MethodVaraFM :: string where "MethodVaraFM = ''varafm''"
definition MethodAX25 :: string where "MethodAX25 = ''ax25''"
definition MethodSerialTNC :: string where "MethodSerialTNC = ''serial-tnc''"

section \<open>External calls\<close>

definition emit :: "event \<Rightarrow> world \<Rightarrow> world" where
  "emit e w = w\<lparr>trace := trace w @ [e]\<rparr>"

text \<open>A call whose only result is an error value.\<close>

definition callErr :: "env \<Rightarrow> event \<Rightarrow> world \<Rightarrow> error option \<times> world" where
  "callErr env e w = (respErr env (trace w @ [e]), emit e w)"

text \<open>
  \<open>ardop.OpenTCP\<close> and \<open>vara.NewModem\<close> return a pointer and an error; the pointer is
  not nil when the error is (the source calls methods on it without a test).
\<close>

datatype opened = Opened handle | OpenFailed "handle option" error

fun ptr :: "opened \<Rightarrow> handle option" where
  "ptr (Opened h) = Some h"
| "ptr (OpenFailed p e) = p"

definition callOpen :: "env \<Rightarrow> handle \<Rightarrow> event \<Rightarrow> world \<Rightarrow> opened \<times> world" where
  "callOpen env h e w =
     (let w' = emit e w
      in case respErr env (trace w') of
           None \<Rightarrow> (Opened h, w')
         | Some err \<Rightarrow> (OpenFailed (if respBool env (trace w') then Some h else None) err, w'))"

text \<open>\<open>pactor.OpenModem\<close>: the source tests the pointer and the error separately.\<close>

definition OpenModem :: "env \<Rightarrow> string \<Rightarrow> world \<Rightarrow> (handle option \<times> error option) \<times> world" where
  "OpenModem env cmdlineinit w =
     (let h = length (trace w);
          w' = emit (EvOpenModem h (Pactor_Path (config env)) (Pactor_Baudrate (config env))
                       (MyCall (fOptions env)) (Pactor_InitScript (config env)) cmdlineinit) w
      in ((if respBool env (trace w') then Some h else None, respErr env (trace w')), w'))"

definition GetFreq :: "env \<Rightarrow> vfo \<Rightarrow> world \<Rightarrow> (int \<times> error option) \<times> world" where
  "GetFreq env rig w =
     (let w' = emit (EvGetFreq rig) w
      in ((respInt env (trace w'), respErr env (trace w')), w'))"

definition SetFreq :: "env \<Rightarrow> vfo \<Rightarrow> int \<Rightarrow> world \<Rightarrow> error option \<times> world" where
  "SetFreq env rig f w = callErr env (EvSetFreq rig f) w"

text \<open>
  The package-level cancellation hook, called: the initial hook does nothing, the hook of
  a dial clears \<open>dialing\<close> and cancels the context of that dial.
\<close>

definition callCancelFunc :: "ctx option \<Rightarrow> world \<Rightarrow> world" where
  "callCancelFunc hook w =
     (case hook of None \<Rightarrow> w | Some c \<Rightarrow> emit (EvCancel c) (w\<lparr>dialing := None\<rparr>))"

text \<open>
  \<open>transport.DialURLContext\<close> blocks. While it does, another task may invoke the hook
  stored in \<open>dialCancelFunc\<close>; then the call answers with a connection or an error.
\<close>

definition DialURLContext :: "env \<Rightarrow> ctx \<Rightarrow> url \<Rightarrow> world \<Rightarrow> (conn option \<times> error option) \<times> world" where
  "DialURLContext env c u w =
     (let w1 = emit (EvDial c u) w;
          w2 = (if abortDuringDial env (trace w1) then callCancelFunc (dialCancelFunc w1) w1 else w1)
      in case respErr env (trace w2) of
           None \<Rightarrow> ((Some (length (trace w2)), None), w2)
         | Some err \<Rightarrow> ((None, Some err), w2))"

definition exchange :: "env \<Rightarrow> conn \<Rightarrow> string \<Rightarrow> world \<Rightarrow> error option \<times> world" where
  "exchange env cn target w = callErr env (EvExchange cn target) w"

section \<open>Small helpers of the source and of the Go library\<close>

definition hasSSID :: "string \<Rightarrow> bool" where
  "hasSSID str = (CHR ''-'' \<in> set str)"

text \<open>\<open>strconv.ParseBool\<close> with its error dropped: false on anything it does not accept.\<close>

definition ParseBool :: "string \<Rightarrow> bool" where
  "ParseBool v = (v \<in> set [''1'', ''t'', ''T'', ''TRUE'', ''true'', ''True''])"

fun Join :: "string list \<Rightarrow> string \<Rightarrow> string" where
  "Join [] sep = []"
| "Join [x] sep = x"
| "Join (x # y # ys) sep = x @ sep @ Join (y # ys) sep"

section \<open>Modem initialisation\<close>

text \<open>
  \<open>config.Ardop.ARQBandwidth\<close> is an \<open>ardop.Bandwidth\<close>, the pair of its fields \<open>Forced\<close>
  and \<open>Max\<close>; \<open>IsZero\<close> of the ARDOP library tests \<open>Max == 0\<close>.
\<close>

definition IsZero :: "bool \<times> nat \<Rightarrow> bool" where
  "IsZero bw = (snd bw = 0)"

definition initArdopTNC :: "env \<Rightarrow> world \<Rightarrow> error option \<times> world" where
  "initArdopTNC env w0 =
     (let (alive, w1) = (case adTNC w0 of
                           None \<Rightarrow> (False, w0)
                         | Some h \<Rightarrow> (case callErr env (EvPing h) w0 of (perr, w) \<Rightarrow> (perr = None, w)))
      in if alive then (None, w1)
         else
           let w2 = (case adTNC w1 of None \<Rightarrow> w1 | Some h \<Rightarrow> emit (EvClose h) w1);
               h = length (trace w2);
               (res, w3) = callOpen env h (EvOpenTCP h (Ardop_Addr (config env)) (MyCall (fOptions env))
                                             (Locator (config env))) w2;
               w4 = w3\<lparr>adTNC := ptr res\<rparr>
           in case res of
                OpenFailed p err \<Rightarrow> (Some (Wrapf ''ARDOP TNC initialization failed'' err), w4)
              | Opened tnc \<Rightarrow>
                  (case (if \<not> IsZero (Ardop_ARQBandwidth (config env))
                         then callErr env (EvSetARQBandwidth tnc (Ardop_ARQBandwidth (config env))) w4
                         else (None, w4)) of
                     (Some err, w5) \<Rightarrow> (Some (Wrapf ''unable to set ARQ bandwidth for ardop TNC'' err), w5)
                   | (None, w5) \<Rightarrow>
                  (case callErr env (EvSetCWID tnc (Ardop_CWID (config env))) w5 of
                     (Some err, w6) \<Rightarrow> (Some (Wrapf ''unable to configure CWID for ardop TNC'' err), w6)
                   | (None, w6) \<Rightarrow>
                  (case callErr env (EvVersion tnc) w6 of
                     (Some err, w7) \<Rightarrow> (Some (Errorf ''ARDOP TNC initialization failed''), w7)
                   | (None, w7) \<Rightarrow>
                       let w8 = emit (EvLog (LogArdopInitialized (respStr env (trace w7)))) w7;
                           w9 = emit (EvRegisterDialer MethodArdop tnc) w8
                       in if \<not> Ardop_PTTControl (config env) then (None, w9)
                          else case map_of (rigs env) (Ardop_Rig (config env)) of
                                 None \<Rightarrow> (Some (Errorf ''unable to set PTT rig: Not defined or not loaded''), w9)
                               | Some rig \<Rightarrow> (None, emit (EvSetPTT tnc rig) w9)))))"

definition initPactorModem :: "env \<Rightarrow> string \<Rightarrow> world \<Rightarrow> error option \<times> world" where
  "initPactorModem env cmdlineinit w0 =
     (let w1 = (case pModem w0 of None \<Rightarrow> w0 | Some h \<Rightarrow> emit (EvClose h) w0);
          ((p, err), w2) = OpenModem env cmdlineinit w1;
          w3 = w2\<lparr>pModem := p\<rparr>
      in case err of
           Some e \<Rightarrow> (Some (Wrapf ''pactor initialization failed'' e), w3)
         | None \<Rightarrow>
             (case p of
                None \<Rightarrow> (Some (Errorf ''pactor initialization failed''), w3)
              | Some h \<Rightarrow> (None, emit (EvRegisterDialer MethodPactor h) w3)))"

text \<open>
  \<open>vModem\<close> is a parameter passed by value: the assignment of the new modem is to the
  local variable, so no field of the world changes but the trace.
\<close>

definition initVaraModem :: "env \<Rightarrow> handle option \<Rightarrow> string \<Rightarrow> VaraConfig \<Rightarrow> world \<Rightarrow> error option \<times> world" where
  "initVaraModem env vModem scheme conf w0 =
     (let w1 = (case vModem of None \<Rightarrow> w0 | Some h \<Rightarrow> emit (EvClose h) w0);
          h = length (trace w1);
          (res, w2) = callOpen env h (EvNewModem h scheme (MyCall (fOptions env))
                                        (vHost conf) (CmdPort conf) (DataPort conf)) w1
      in case res of
           OpenFailed p err \<Rightarrow> (Some (Wrapf ''vara initialization failed'' err), w2)
         | Opened m \<Rightarrow>
             let w3 = emit (EvRegisterDialer scheme m) w2
             in if \<not> PTTControl conf then (None, w3)
                else case map_of (rigs env) (Rig conf) of
                       None \<Rightarrow> (Some (Errorf ''unable to set PTT rig: not defined or not loaded''), w3)
                     | Some rig \<Rightarrow> (None, emit (EvSetPTT m rig) w3))"

section \<open>Frequency control\<close>

text \<open>
  Modelled from the spec: \<open>setFreq\<close> is called by \<open>qsy\<close> but defined in a file that is not
  among the sources. The spec says of it that it reads and remembers the current
  frequency and commands the target frequency; the target is given as text, whose
  conversion is the parameter \<open>ParseFreq\<close>. It returns the new and the old frequency.
\<close>

definition setFreq :: "env \<Rightarrow> vfo \<Rightarrow> string \<Rightarrow> world \<Rightarrow> (int \<times> int \<times> error option) \<times> world" where
  "setFreq env rig freq w0 =
     (case GetFreq env rig w0 of
        ((oldFreq, Some err), w1) \<Rightarrow> ((0, 0, Some err), w1)
      | ((oldFreq, None), w1) \<Rightarrow>
          (case ParseFreq env freq of
             Inl err \<Rightarrow> ((0, 0, Some err), w1)
           | Inr newFreq \<Rightarrow>
               (case SetFreq env rig newFreq w1 of (err, w2) \<Rightarrow> ((newFreq, oldFreq, err), w2))))"

text \<open>The closure that \<open>qsy\<close> returns on success; the error of \<open>rig.SetFreq\<close> is dropped.\<close>

definition revertFreq :: "string \<Rightarrow> vfo \<Rightarrow> int \<Rightarrow> world \<Rightarrow> world" where
  "revertFreq method rig oldFreq w =
     emit (EvSetFreq rig oldFreq) (emit (EvLog (LogQSX method oldFreq)) (emit (EvSleep 1000) w))"

definition noop :: "world \<Rightarrow> world" where
  "noop w = w"

definition qsy :: "env \<Rightarrow> string \<Rightarrow> string \<Rightarrow> world \<Rightarrow> ((world \<Rightarrow> world) \<times> error option) \<times> world" where
  "qsy env method addr w0 =
     (case VFOForTransport env method of
        (rig, rigName, ok, Some err) \<Rightarrow> ((noop, Some err), w0)
      | (rig, rigName, ok, None) \<Rightarrow>
          if \<not> ok then ((noop, Some (Errorf (''hamlib rig not loaded: '' @ rigName))), w0)
          else
            let w1 = emit (EvLog (LogQSY method addr)) w0
            in case setFreq env rig addr w1 of
                 ((newFreq, oldFreq, Some err), w2) \<Rightarrow> ((noop, Some err), w2)
               | ((newFreq, oldFreq, None), w2) \<Rightarrow>
                   ((revertFreq method rig oldFreq, None), emit (EvSleep 3000) w2))"

section \<open>Busy-channel gate\<close>

partial_function (option) waitBusyLoop :: "env \<Rightarrow> handle option \<Rightarrow> bool \<Rightarrow> world \<Rightarrow> world option" where
  "waitBusyLoop env b printed w =
     (if respBool env (trace w @ [EvBusy b])
      then (if \<not> printed \<and> IgnoreBusy (fOptions env)
            then Some (emit (EvLog LogIgnoringBusy) (emit (EvBusy b) w))
            else if \<not> printed
            then waitBusyLoop env b True
                   (emit (EvSleep 300) (emit (EvLog LogWaitingClear) (emit (EvBusy b) w)))
            else waitBusyLoop env b printed (emit (EvSleep 300) (emit (EvBusy b) w)))
      else Some (emit (EvBusy b) w))"

definition waitBusy :: "env \<Rightarrow> handle option \<Rightarrow> world \<Rightarrow> world option" where
  "waitBusy env b w = waitBusyLoop env b False w"

section \<open>The dial orchestrator\<close>

text \<open>
  Deferred calls are kept in a list, the most recently deferred first; every return runs
  them in that order.
\<close>

definition returns :: "bool \<Rightarrow> (world \<Rightarrow> world) list \<Rightarrow> world \<Rightarrow> (bool \<times> world) option" where
  "returns success ds w = Some (success, fold (\<lambda>d. d) ds w)"

definition deferredStatus :: "world \<Rightarrow> world" where
  "deferredStatus w = (let w1 = emit (EvSleep 1000) w in emit (EvUpdateStatus (dialing w1)) w1)"

text \<open>The switch that initialises the modem of the scheme (lines 67 to 93 of \<open>Connect\<close>).\<close>

definition initTNCs :: "env \<Rightarrow> url \<Rightarrow> world \<Rightarrow> error option \<times> world" where
  "initTNCs env u w =
     (if Scheme u = MethodArdop then initArdopTNC env w
      else if Scheme u = MethodPactor then
        initPactorModem env (case map_of (Params u) ''init'' of
                               Some val \<Rightarrow> Join val [CHR 0x0A]
                             | None \<Rightarrow> []) w
      else if Scheme u = MethodVaraHF then
        initVaraModem env (varaHFModem w) MethodVaraHF (VaraHF (config env)) w
      else if Scheme u = MethodVaraFM then
        initVaraModem env (varaFMModem w) MethodVaraFM (VaraFM (config env)) w
      else (None, w))"

text \<open>Default userinfo and default host interface address (lines 95 to 114).\<close>

definition setDefaults :: "env \<Rightarrow> url \<Rightarrow> url" where
  "setDefaults env u0 =
     (let u1 = (if User u0 = None then SetUser u0 (MyCall (fOptions env)) else u0)
      in if Host u1 = [] then
           (if Scheme u1 = MethodAX25 then u1\<lparr>Host := AX25_Port (config env)\<rparr>
            else if Scheme u1 = MethodSerialTNC then
              let u2 = u1\<lparr>Host := SerialTNC_Path (config env)\<rparr>;
                  hbaud = SerialTNC_HBaud (config env);
                  u3 = (if hbaud > 0
                        then u2\<lparr>Params := Values_Set (Params u2) ''hbaud'' (Sprint env hbaud)\<rparr>
                        else u2);
                  sbaud = SerialTNC_SerialBaud (config env)
              in (if sbaud > 0
                  then u3\<lparr>Params := Values_Set (Params u3) ''serial_baud'' (Sprint env sbaud)\<rparr>
                  else u3)
            else u1)
         else u1)"

text \<open>The value of the local variable \<open>radioOnly\<close>: the option, overridden by the parameter.\<close>

definition radioOnly :: "env \<Rightarrow> url \<Rightarrow> bool" where
  "radioOnly env u =
     (let v = Values_Get (Params u) ''radio_only''
      in if v \<noteq> [] then ParseBool v else RadioOnly (fOptions env))"

text \<open>Radio Only (lines 116 to 134): \<open>None\<close> is the return, after its log line.\<close>

definition radioOnlyStep :: "env \<Rightarrow> url \<Rightarrow> world \<Rightarrow> url option \<times> world" where
  "radioOnlyStep env u w =
     (if radioOnly env u then
        (if hasSSID (MyCall (fOptions env)) then (None, emit (EvLog LogRadioOnlySSID) w)
         else if Scheme u = MethodAX25 \<or> Scheme u = MethodSerialTNC
         then (None, emit (EvLog (LogRadioOnlyUnavailable (Scheme u))) w)
         else (Some (SetUser u (Username u @ ''-T'')), w))
      else (Some u, w))"

text \<open>QSY (lines 136 to 145): \<open>Inl\<close> is the return, after its log line; \<open>Inr\<close> carries what
  was deferred.\<close>

definition qsyStep :: "env \<Rightarrow> url \<Rightarrow> world \<Rightarrow> world + ((world \<Rightarrow> world) list \<times> world)" where
  "qsyStep env u w =
     (let freq = Values_Get (Params u) ''freq''
      in if freq \<noteq> [] then
           (case qsy env (Scheme u) freq w of
              ((revert, Some err), w1) \<Rightarrow> Inl (emit (EvLog (LogUnableQSY err)) w1)
            | ((revert, None), w1) \<Rightarrow> Inr ([revert], w1))
         else Inr ([], w))"

text \<open>The frequency snapshot for the event log (lines 146 to 150).\<close>

definition snapshotFreq :: "env \<Rightarrow> url \<Rightarrow> world \<Rightarrow> int \<times> world" where
  "snapshotFreq env u w =
     (case VFOForTransport env (Scheme u) of
        (rig, rigName, ok, err) \<Rightarrow>
          if ok then (case GetFreq env rig w of ((f, ferr), w1) \<Rightarrow> (f, w1)) else (0, w))"

text \<open>From the creation of the dial context to the end of the function (lines 158 to 192).\<close>

definition dialAndExchange ::
  "env \<Rightarrow> string \<Rightarrow> url \<Rightarrow> int \<Rightarrow> (world \<Rightarrow> world) list \<Rightarrow> world \<Rightarrow> (bool \<times> world) option" where
  "dialAndExchange env connectStr u currFreq ds0 w0 =
     (let c = length (trace w0);
          w1 = (emit (EvWithCancel c) w0)\<lparr>dialCancelFunc := Some c\<rparr>;
          ds = callCancelFunc (dialCancelFunc w1) # ds0;
          w2 = w1\<lparr>dialing := Some u\<rparr>;
          w3 = emit (EvUpdateStatus (dialing w2)) w2;
          w4 = emit (EvLog (LogConnecting (Target u) (Scheme u))) w3
      in case DialURLContext env c u w4 of
           ((cn, err), w5) \<Rightarrow>
             let w6 = w5\<lparr>dialing := None\<rparr>;
                 w7 = emit (EvUpdateStatus (dialing w6)) w6;
                 w8 = emit (EvLogConn (''connect '' @ connectStr) currFreq cn err) w7
             in case err of
                  Some e \<Rightarrow>
                    if errors_Is_Canceled e then returns False ds (emit (EvLog LogCancelled) w8)
                    else returns False ds (emit (EvLog (LogUnableConnect e)) w8)
                | None \<Rightarrow>
                    (case exchange env (case cn of Some n \<Rightarrow> n | None \<Rightarrow> 0) (Target u) w8 of
                       (Some e, w9) \<Rightarrow> returns False ds (emit (EvLog (LogExchangeFailed e)) w9)
                     | (None, w9) \<Rightarrow> returns True ds (emit (EvLog LogDisconnected) w9)))"

text \<open>
  The body of \<open>Connect\<close> after the alias lookup, in parts. The first runs from the
  parsing of the descriptor to the QSY (lines 60 to 145): \<open>Inl\<close> is a return (its log line written, the
  deferred calls not yet run), \<open>Inr\<close> carries the descriptor with its defaults, what the
  QSY deferred, and the world.
\<close>

definition Connect_prepare :: "env \<Rightarrow> string \<Rightarrow> world \<Rightarrow> world + (url \<times> (world \<Rightarrow> world) list \<times> world)" where
  "Connect_prepare env connectStr w0 =
     (let w1 = emit (EvDebug connectStr) w0
      in case ParseURL env connectStr of
           Inl err \<Rightarrow> Inl (emit (EvLog (LogError err)) w1)
         | Inr u0 \<Rightarrow>
        (case initTNCs env u0 w1 of
           (Some err, w2) \<Rightarrow> Inl (emit (EvLog (LogError err)) w2)
         | (None, w2) \<Rightarrow>
        (case radioOnlyStep env (setDefaults env u0) w2 of
           (None, w3) \<Rightarrow> Inl w3
         | (Some u, w3) \<Rightarrow>
        (case qsyStep env u w3 of
           Inl w4 \<Rightarrow> Inl w4
         | Inr (dq, w4) \<Rightarrow> Inr (u, dq, w4)))))"

text \<open>The frequency snapshot and the wait for a clear channel (lines 146 to 156).\<close>

definition Connect_wait :: "env \<Rightarrow> url \<Rightarrow> world \<Rightarrow> (int \<times> world) option" where
  "Connect_wait env u w4 =
     (case snapshotFreq env u w4 of
        (currFreq, w5) \<Rightarrow>
          Option.bind (if Scheme u = MethodArdop then waitBusy env (adTNC w5) w5 else Some w5)
            (\<lambda>w6. Some (currFreq, w6)))"

definition Connect_dial :: "env \<Rightarrow> string \<Rightarrow> world \<Rightarrow> (bool \<times> world) option" where
  "Connect_dial env connectStr w0 =
     (let ds = [deferredStatus]
      in case Connect_prepare env connectStr w0 of
           Inl w \<Rightarrow> returns False ds w
         | Inr (u, dq, w4) \<Rightarrow>
             Option.bind (Connect_wait env u w4)
               (\<lambda>(currFreq, w6). dialAndExchange env connectStr u currFreq (dq @ ds) w6))"

partial_function (option) Connect :: "env \<Rightarrow> string \<Rightarrow> world \<Rightarrow> (bool \<times> world) option" where
  "Connect env connectStr w =
     (if connectStr = [] then Some (False, w)
      else case map_of (ConnectAliases (config env)) connectStr of
             Some aliased \<Rightarrow> Connect env aliased w
           | None \<Rightarrow> Connect_dial env connectStr w)"

fun connectAny :: "env \<Rightarrow> string list \<Rightarrow> world \<Rightarrow> (bool \<times> world) option" where
  "connectAny env [] w = Some (False, w)"
| "connectAny env (str # rest) w =
     (case Connect env str w of
        None \<Rightarrow> None
      | Some (ok, w') \<Rightarrow> if ok then Some (True, w') else connectAny env rest w')"

declare waitBusyLoop.simps [code]
declare Connect.simps [code]

section \<open>Notions used by the properties\<close>

text \<open>
  \<open>aliasChain env s t\<close>: called with \<open>s\<close>, \<open>Connect\<close> follows the aliases to \<open>t\<close>, which
  is not empty and not an alias, so that \<open>t\<close> is the descriptor it goes on to parse.
\<close>

inductive aliasChain :: "env \<Rightarrow> string \<Rightarrow> string \<Rightarrow> bool" for env where
  direct: "s \<noteq> [] \<Longrightarrow> map_of (ConnectAliases (config env)) s = None \<Longrightarrow> aliasChain env s s"
| step: "s \<noteq> [] \<Longrightarrow> map_of (ConnectAliases (config env)) s = Some a \<Longrightarrow> aliasChain env a t
          \<Longrightarrow> aliasChain env s t"

code_pred aliasChain .

text \<open>\<open>allFail env xs w w'\<close>: the calls of \<open>Connect\<close> on \<open>xs\<close>, in order from \<open>w\<close>, all
  return false and end in \<open>w'\<close>.\<close>

inductive allFail :: "env \<Rightarrow> string list \<Rightarrow> world \<Rightarrow> world \<Rightarrow> bool" for env where
  none: "allFail env [] w w"
| more: "Connect env x w = Some (False, w1) \<Longrightarrow> allFail env xs w1 w' \<Longrightarrow> allFail env (x # xs) w w'"

code_pred allFail .

text \<open>The events of \<open>n\<close> rounds of the busy loop when busy channels are not ignored.\<close>

fun waitingEvents :: "handle option \<Rightarrow> bool \<Rightarrow> nat \<Rightarrow> event list" where
  "waitingEvents b printed 0 = []"
| "waitingEvents b printed (Suc n) =
     (if printed then [EvBusy b, EvSleep 300] else [EvBusy b, EvLog LogWaitingClear, EvSleep 300])
     @ waitingEvents b True n"

text \<open>Classes of events.\<close>

fun isOpen :: "event \<Rightarrow> bool" where
  "isOpen (EvOpenTCP h a c l) = True"
| "isOpen (EvOpenModem h p b c i x) = True"
| "isOpen (EvNewModem h s c a p q) = True"
| "isOpen e = False"

fun isClose :: "event \<Rightarrow> bool" where
  "isClose (EvClose h) = True"
| "isClose e = False"

definition isOpenOrClose :: "event \<Rightarrow> bool" where
  "isOpenOrClose e = (isOpen e \<or> isClose e)"

fun isModemCall :: "event \<Rightarrow> bool" where
  "isModemCall (EvPing h) = True"
| "isModemCall (EvClose h) = True"
| "isModemCall (EvOpenTCP h a c l) = True"
| "isModemCall (EvSetARQBandwidth h bw) = True"
| "isModemCall (EvSetCWID h v) = True"
| "isModemCall (EvVersion h) = True"
| "isModemCall (EvRegisterDialer s h) = True"
| "isModemCall (EvSetPTT h r) = True"
| "isModemCall (EvOpenModem h p b c i x) = True"
| "isModemCall (EvNewModem h s c a p q) = True"
| "isModemCall e = False"

fun isFreqChange :: "event \<Rightarrow> bool" where
  "isFreqChange (EvSetFreq r f) = True"
| "isFreqChange e = False"

fun isDial :: "event \<Rightarrow> bool" where
  "isDial (EvDial c u) = True"
| "isDial e = False"


fun isRevert :: "event \<Rightarrow> bool" where
  "isRevert (EvLog (LogQSX m f)) = True"
| "isRevert (EvSetFreq r f) = True"
| "isRevert e = False"


text \<open>\<open>grows P w w'\<close>: the trace of \<open>w'\<close> is that of \<open>w\<close> and then events that satisfy \<open>P\<close>.\<close>

definition grows :: "(event \<Rightarrow> bool) \<Rightarrow> world \<Rightarrow> world \<Rightarrow> bool" where
  "grows P w w' = (\<exists>evs. trace w' = trace w @ evs \<and> list_all P evs)"

section \<open>A station, for concrete runs\<close>

definition telnetURL :: url where
  "telnetURL = \<lparr>Scheme = ''telnet'', Host = ''cms.winlink.org:8772'', User = None,
     Target = ''wl2k'', Params = []\<rparr>"

definition ardopURL :: url where
  "ardopURL = \<lparr>Scheme = ''ardop'', Host = [], User = None,
     Target = ''LA1B'', Params = [(''freq'', [''3586.5''])]\<rparr>"

definition varaURL :: url where
  "varaURL = \<lparr>Scheme = ''varahf'', Host = [], User = None, Target = ''LA1B'', Params = []\<rparr>"

definition stationVara :: VaraConfig where
  "stationVara = \<lparr>vHost = ''localhost'', CmdPort = 8300, DataPort = 8301, PTTControl = False, Rig = []\<rparr>"

definition stationConfig :: Config where
  "stationConfig = \<lparr>ConnectAliases = [(''home'', ''telnet://wl2k'')], Locator = ''JP20qe'',
     Ardop_Addr = ''localhost:8515'', Ardop_ARQBandwidth = (False, 0), Ardop_CWID = True,
     Ardop_PTTControl = False, Ardop_Rig = ''ic706'',
     Pactor_Path = ''/dev/ttyUSB0'', Pactor_Baudrate = 57600, Pactor_InitScript = [],
     VaraHF = stationVara, VaraFM = stationVara,
     AX25_Port = ''wl2k'', SerialTNC_Path = ''/dev/ttyUSB1'', SerialTNC_HBaud = 1200,
     SerialTNC_SerialBaud = 9600\<rparr>"

definition stationParseURL :: "string \<Rightarrow> error + url" where
  "stationParseURL s =
     (if s = ''telnet://wl2k'' then Inr telnetURL
      else if s = ''ardop:///LA1B?freq=3586.5'' then Inr ardopURL
      else if s = ''varahf:///LA1B'' then Inr varaURL
      else Inl (Failure ''invalid connect url''))"

definition stationVFO :: "string \<Rightarrow> vfo \<times> string \<times> bool \<times> error option" where
  "stationVFO m =
     (if m = ''ardop'' then (0, ''ic706'', True, None)
      else (0, [], False, Some (Errorf ''not supported with transport'')))"

text \<open>Every external call succeeds, the channel is clear and nobody aborts.\<close>

definition station :: env where
  "station = \<lparr>config = stationConfig,
     fOptions = \<lparr>MyCall = ''LA5NTA'', RadioOnly = False, IgnoreBusy = False\<rparr>,
     rigs = [(''ic706'', 0)],
     ParseURL = stationParseURL,
     VFOForTransport = stationVFO,
     ParseFreq = (\<lambda>s. Inr 3586500),
     Sprint = (\<lambda>i. ''1200''),
     respErr = (\<lambda>h. None),
     respBool = (\<lambda>h. False),
     respInt = (\<lambda>h. 7100000),
     respStr = (\<lambda>h. ''1.0''),
     abortDuringDial = (\<lambda>h. False)\<rparr>"

definition idle :: world where
  "idle = \<lparr>dialing = None, adTNC = None, pModem = None, varaHFModem = None, varaFMModem = None,
     dialCancelFunc = None, trace = []\<rparr>"

text \<open>The same station with a callsign that has an SSID and radio-only mode on.\<close>

definition ssidStation :: env where
  "ssidStation = station\<lparr>fOptions := \<lparr>MyCall = ''LA5NTA-1'', RadioOnly = True, IgnoreBusy = False\<rparr>\<rparr>"

text \<open>The same station where the rig lookup finds no rig.\<close>

definition noRigStation :: env where
  "noRigStation = station\<lparr>VFOForTransport := (\<lambda>m. (0, ''ic706'', False, None))\<rparr>"



text \<open>The same station where \<open>pactor.OpenModem\<close> returns a modem.\<close>

definition pactorStation :: env where
  "pactorStation = station\<lparr>respBool := (\<lambda>h. True)\<rparr>"

text \<open>The same station where the ARDOP TNC with handle 7 does not answer a ping.\<close>

definition deadTNCStation :: env where
  "deadTNCStation =
     station\<lparr>respErr := (\<lambda>h. if last h = EvPing 7 then Some (Failure ''timeout'') else None)\<rparr>"

text \<open>The worlds of an ARDOP call of the station: the TNC initialised, the rig tuned, the call returned.\<close>

definition ardopUser :: url where
  "ardopUser = ardopURL\<lparr>User := Some ''LA5NTA''\<rparr>"

definition ardopReady :: world where
  "ardopReady = idle\<lparr>adTNC := Some 1,
     trace := [EvDebug ''ardop:///LA1B?freq=3586.5'',
               EvOpenTCP 1 ''localhost:8515'' ''LA5NTA'' ''JP20qe'', EvSetCWID 1 True, EvVersion 1,
               EvLog (LogArdopInitialized ''1.0''), EvRegisterDialer ''ardop'' 1]\<rparr>"

definition ardopTuned :: world where
  "ardopTuned = ardopReady\<lparr>trace := trace ardopReady @
     [EvLog (LogQSY ''ardop'' ''3586.5''), EvGetFreq 0, EvSetFreq 0 3586500, EvSleep 3000]\<rparr>"

definition ardopDone :: world where
  "ardopDone = ardopTuned\<lparr>dialCancelFunc := Some 12, trace := trace ardopTuned @
     [EvGetFreq 0, EvBusy (Some 1), EvWithCancel 12, EvUpdateStatus (Some ardopUser),
      EvLog (LogConnecting ''LA1B'' ''ardop''), EvDial 12 ardopUser, EvUpdateStatus None,
      EvLogConn ''connect ardop:///LA1B?freq=3586.5'' 7100000 (Some 16) None, EvExchange 16 ''LA1B'',
      EvLog LogDisconnected, EvCancel 12,
      EvSleep 1000, EvLog (LogQSX ''ardop'' 7100000), EvSetFreq 0 7100000,
      EvSleep 1000, EvUpdateStatus None]\<rparr>"

section \<open>Properties\<close>

lemmas Method_defs = MethodArdop_def MethodPactor_def MethodVaraHF_def MethodVaraFM_def
  MethodAX25_def MethodSerialTNC_def

lemmas call_defs = emit_def callErr_def callOpen_def OpenModem_def GetFreq_def SetFreq_def
  callCancelFunc_def DialURLContext_def exchange_def

lemmas step_defs = Connect_dial_def Connect_prepare_def Connect_wait_def returns_def
  deferredStatus_def initTNCs_def setDefaults_def radioOnly_def
  radioOnlyStep_def qsyStep_def snapshotFreq_def dialAndExchange_def qsy_def setFreq_def
  revertFreq_def noop_def initArdopTNC_def initPactorModem_def initVaraModem_def
  Values_Get_def Values_Set_def SetUser_def Username_def hasSSID_def ParseBool_def IsZero_def

lemmas station_defs = station_def stationConfig_def stationVara_def stationParseURL_def
  stationVFO_def telnetURL_def ardopURL_def varaURL_def idle_def

subsection \<open>Aliases\<close>

lemma Connect_alias: "aliasChain env s t \<Longrightarrow> Connect env s w = Connect_dial env t w"
  by (induction rule: aliasChain.induct) (subst Connect.simps, simp)+

lemma station_bogus_chain: "aliasChain station ''bogus'' ''bogus''"
  by (rule aliasChain.direct) (simp_all add: station_defs)

lemma station_telnet_chain: "aliasChain station ''telnet://wl2k'' ''telnet://wl2k''"
  by (rule aliasChain.direct) (simp_all add: station_defs)

lemma station_home_chain: "aliasChain station ''home'' ''telnet://wl2k''"
  by (rule aliasChain.step [OF _ _ station_telnet_chain]) (simp_all add: station_defs)

subsection \<open>The empty connect string\<close>

text \<open>
  C10. Called with the empty string, \<open>Connect\<close> returns false and leaves the world as it
  was: every package-level variable and the whole trace of external calls are unchanged,
  so nothing was looked up, parsed, initialised, tuned or notified.
\<close>

theorem Connect_empty_string: "Connect env [] w = Some (False, w)"
  by (subst Connect.simps) simp

subsection \<open>Descriptors that do not parse\<close>

text \<open>
  C4. When the descriptor that \<open>Connect\<close> parses (the connect string, or what its aliases
  lead to) fails to parse, \<open>Connect\<close> returns false. The world it leaves differs from the
  one it found only by four events: the debug line, the log line of the parse error, and
  the deferred sleep and status update. No modem is opened or initialised and no rig is
  tuned: parsing comes before every such step.
\<close>

theorem Connect_parse_failure:
  assumes "aliasChain env connectStr s" and "ParseURL env s = Inl err"
  shows "Connect env connectStr w =
           Some (False, w\<lparr>trace := trace w @ [EvDebug s, EvLog (LogError err), EvSleep 1000,
                                               EvUpdateStatus (dialing w)]\<rparr>)"
  using assms
  by (simp add: Connect_alias Connect_dial_def Connect_prepare_def returns_def deferredStatus_def
      emit_def)

theorem Connect_parse_failure_witness:
  "Connect station ''bogus'' idle =
     Some (False, idle\<lparr>trace := [EvDebug ''bogus'', EvLog (LogError (Failure ''invalid connect url'')),
                                  EvSleep 1000, EvUpdateStatus None]\<rparr>)"
proof -
  have parse: "ParseURL station ''bogus'' = Inl (Failure ''invalid connect url'')"
    by (simp add: station_defs)
  show ?thesis
    using Connect_parse_failure [OF station_bogus_chain parse, of idle]
    by (simp add: idle_def)
qed

subsection \<open>The busy-channel gate\<close>

lemma waitBusyLoop_rounds:
  assumes "\<not> IgnoreBusy (fOptions env)"
    and "\<forall>k<n. respBool env (trace w @ waitingEvents b printed k @ [EvBusy b])"
    and "\<not> respBool env (trace w @ waitingEvents b printed n @ [EvBusy b])"
  shows "waitBusyLoop env b printed w =
           Some (w\<lparr>trace := trace w @ waitingEvents b printed n @ [EvBusy b]\<rparr>)"
  using assms
proof (induction n arbitrary: w printed)
  case 0
  then show ?case by (subst waitBusyLoop.simps) (simp add: emit_def)
next
  case (Suc n)
  have busy: "respBool env (trace w @ [EvBusy b])"
    using Suc.prems(2) by (auto dest: spec [of _ 0])
  let ?w = "w\<lparr>trace := trace w @ waitingEvents b printed (Suc 0)\<rparr>"
  have later: "\<forall>k<n. respBool env (trace ?w @ waitingEvents b True k @ [EvBusy b])"
  proof (intro allI impI)
    fix k assume "k < n"
    then have "Suc k < Suc n" by simp
    with Suc.prems(2) have "respBool env (trace w @ waitingEvents b printed (Suc k) @ [EvBusy b])"
      by blast
    then show "respBool env (trace ?w @ waitingEvents b True k @ [EvBusy b])" by simp
  qed
  have final: "\<not> respBool env (trace ?w @ waitingEvents b True n @ [EvBusy b])"
    using Suc.prems(3) by simp
  have "waitBusyLoop env b True ?w =
          Some (?w\<lparr>trace := trace ?w @ waitingEvents b True n @ [EvBusy b]\<rparr>)"
    by (rule Suc.IH [OF Suc.prems(1) later final])
  then show ?case
    using busy Suc.prems(1)
    by (subst waitBusyLoop.simps) (cases printed; simp add: emit_def)
qed

lemma waitBusy_clear:
  "\<not> respBool env (trace w @ [EvBusy b]) \<Longrightarrow> waitBusy env b w = Some (emit (EvBusy b) w)"
  unfolding waitBusy_def by (subst waitBusyLoop.simps) simp

text \<open>
  C9. With the ignore-busy option set, \<open>waitBusy\<close> returns whatever the channel answers,
  now or later: after one poll when the channel is clear, after one poll and the one log
  line "Ignoring busy channel!" when it is busy. With the option not set, if the channel
  answers busy to the first \<open>n\<close> polls and clear to the next one, \<open>waitBusy\<close> returns at
  that poll: its events are the \<open>n\<close> busy rounds and the poll that found the channel clear.
\<close>

theorem waitBusy_gate:
  "(IgnoreBusy (fOptions env) \<longrightarrow>
      waitBusy env b w =
        Some (if respBool env (trace w @ [EvBusy b])
              then w\<lparr>trace := trace w @ [EvBusy b, EvLog LogIgnoringBusy]\<rparr>
              else w\<lparr>trace := trace w @ [EvBusy b]\<rparr>)) \<and>
   (\<not> IgnoreBusy (fOptions env) \<and>
    (\<forall>k<n. respBool env (trace w @ waitingEvents b False k @ [EvBusy b])) \<and>
    \<not> respBool env (trace w @ waitingEvents b False n @ [EvBusy b]) \<longrightarrow>
      waitBusy env b w = Some (w\<lparr>trace := trace w @ waitingEvents b False n @ [EvBusy b]\<rparr>))"
proof (intro conjI impI)
  assume "IgnoreBusy (fOptions env)"
  then show "waitBusy env b w =
        Some (if respBool env (trace w @ [EvBusy b])
              then w\<lparr>trace := trace w @ [EvBusy b, EvLog LogIgnoringBusy]\<rparr>
              else w\<lparr>trace := trace w @ [EvBusy b]\<rparr>)"
    unfolding waitBusy_def by (subst waitBusyLoop.simps) (simp add: emit_def)
next
  assume "\<not> IgnoreBusy (fOptions env) \<and>
    (\<forall>k<n. respBool env (trace w @ waitingEvents b False k @ [EvBusy b])) \<and>
    \<not> respBool env (trace w @ waitingEvents b False n @ [EvBusy b])"
  then show "waitBusy env b w = Some (w\<lparr>trace := trace w @ waitingEvents b False n @ [EvBusy b]\<rparr>)"
    unfolding waitBusy_def by (intro waitBusyLoop_rounds) auto
qed

text \<open>
  The witness: a channel that is busy for ever, ignored; and a channel that is busy at
  the first poll and clear at the second, waited for.
\<close>

theorem waitBusy_gate_witness:
  "waitBusy (station\<lparr>fOptions := \<lparr>MyCall = ''LA5NTA'', RadioOnly = False, IgnoreBusy = True\<rparr>,
                     respBool := (\<lambda>h. True)\<rparr>) (Some 1) idle =
     Some (idle\<lparr>trace := [EvBusy (Some 1), EvLog LogIgnoringBusy]\<rparr>) \<and>
   waitBusy (station\<lparr>respBool := (\<lambda>h. length h < 4)\<rparr>) (Some 1) idle =
     Some (idle\<lparr>trace := [EvBusy (Some 1), EvLog LogWaitingClear, EvSleep 300, EvBusy (Some 1)]\<rparr>)"
proof -
  let ?ignoring = "station\<lparr>fOptions := \<lparr>MyCall = ''LA5NTA'', RadioOnly = False, IgnoreBusy = True\<rparr>,
                          respBool := (\<lambda>h. True)\<rparr>"
  let ?waiting = "station\<lparr>respBool := (\<lambda>h. length h < 4)\<rparr>"
  have a: "waitBusy ?ignoring (Some 1) idle =
             Some (idle\<lparr>trace := [EvBusy (Some 1), EvLog LogIgnoringBusy]\<rparr>)"
    using waitBusy_gate [of ?ignoring "Some 1" idle 0]
    by (simp add: station_def idle_def)
  have b: "waitBusy ?waiting (Some 1) idle =
             Some (idle\<lparr>trace := [EvBusy (Some 1), EvLog LogWaitingClear, EvSleep 300, EvBusy (Some 1)]\<rparr>)"
    using waitBusy_gate [of ?waiting "Some 1" idle "Suc 0"]
    by (simp add: station_def idle_def)
  from a b show ?thesis by simp
qed

subsection \<open>Trying candidates in order\<close>

lemma connectAny_allFail: "allFail env xs w w' \<Longrightarrow> connectAny env xs w = Some (False, w')"
  by (induction rule: allFail.induct) auto

lemma connectAny_first:
  "allFail env xs w w1 \<Longrightarrow> Connect env s w1 = Some (True, w2)
     \<Longrightarrow> connectAny env (xs @ s # ys) w = Some (True, w2)"
  by (induction rule: allFail.induct) auto

lemma connectAny_False_D: "connectAny env cs w = Some (False, w') \<Longrightarrow> allFail env cs w w'"
  by (induction cs arbitrary: w) (auto split: option.splits if_splits intro: allFail.intros)

lemma connectAny_True_D:
  "connectAny env cs w = Some (True, w2)
     \<Longrightarrow> \<exists>xs s ys w1. cs = xs @ s # ys \<and> allFail env xs w w1 \<and> Connect env s w1 = Some (True, w2)"
proof (induction cs arbitrary: w)
  case Nil
  then show ?case by simp
next
  case (Cons c cs)
  show ?case
  proof (cases "Connect env c w")
    case None
    then show ?thesis using Cons.prems by simp
  next
    case (Some r)
    obtain ok w' where r: "r = (ok, w')" by (cases r)
    show ?thesis
    proof (cases ok)
      case True
      then have "Connect env c w = Some (True, w2)" using Some r Cons.prems by simp
      then have "c # cs = [] @ c # cs \<and> allFail env [] w w \<and> Connect env c w = Some (True, w2)"
        by (simp add: allFail.none)
      then show ?thesis by blast
    next
      case False
      then have c: "Connect env c w = Some (False, w')"
        and rest: "connectAny env cs w' = Some (True, w2)"
        using Some r Cons.prems by simp_all
      from Cons.IH [OF rest] obtain xs s ys w1 where
        "cs = xs @ s # ys" "allFail env xs w' w1" "Connect env s w1 = Some (True, w2)" by blast
      then have "c # cs = (c # xs) @ s # ys \<and> allFail env (c # xs) w w1
                   \<and> Connect env s w1 = Some (True, w2)"
        using c by (simp add: allFail.more)
      then show ?thesis by blast
    qed
  qed
qed

text \<open>
  C8. \<open>connectAny\<close> returns true exactly when its candidates are some \<open>xs\<close>, then \<open>s\<close>,
  then some \<open>ys\<close>, where \<open>Connect\<close> returned false on each of \<open>xs\<close> in order and true on
  \<open>s\<close>; the world it leaves is the one that the call on \<open>s\<close> left, whatever \<open>ys\<close> is, so
  no later candidate was tried. It returns false exactly when \<open>Connect\<close> returned false
  on every candidate in order, and leaves the world of the last call.
\<close>

theorem connectAny_in_order:
  "(connectAny env cs w = Some (True, w2) \<longleftrightarrow>
      (\<exists>xs s ys w1. cs = xs @ s # ys \<and> allFail env xs w w1 \<and> Connect env s w1 = Some (True, w2))) \<and>
   (connectAny env cs w = Some (False, w') \<longleftrightarrow> allFail env cs w w')"
proof (intro conjI iffI)
  assume "connectAny env cs w = Some (True, w2)"
  then show "\<exists>xs s ys w1. cs = xs @ s # ys \<and> allFail env xs w w1 \<and> Connect env s w1 = Some (True, w2)"
    by (rule connectAny_True_D)
next
  assume "\<exists>xs s ys w1. cs = xs @ s # ys \<and> allFail env xs w w1 \<and> Connect env s w1 = Some (True, w2)"
  then show "connectAny env cs w = Some (True, w2)"
    by (auto simp: connectAny_first)
next
  assume "connectAny env cs w = Some (False, w')"
  then show "allFail env cs w w'" by (rule connectAny_False_D)
next
  assume "allFail env cs w w'"
  then show "connectAny env cs w = Some (False, w')" by (rule connectAny_allFail)
qed

lemma station_bogus:
  "Connect station ''bogus'' idle =
     Some (False, idle\<lparr>trace := [EvDebug ''bogus'', EvLog (LogError (Failure ''invalid connect url'')),
                                  EvSleep 1000, EvUpdateStatus None]\<rparr>)"
  by (subst Connect_alias [OF station_bogus_chain])
    (simp add: step_defs call_defs station_defs Method_defs)

lemma station_telnet_after_bogus:
  "Connect station ''telnet://wl2k''
     (idle\<lparr>trace := [EvDebug ''bogus'', EvLog (LogError (Failure ''invalid connect url'')),
                     EvSleep 1000, EvUpdateStatus None]\<rparr>) =
   Some (True, idle\<lparr>dialCancelFunc := Some 5,
      trace := [EvDebug ''bogus'', EvLog (LogError (Failure ''invalid connect url'')),
                EvSleep 1000, EvUpdateStatus None,
                EvDebug ''telnet://wl2k'', EvWithCancel 5,
                EvUpdateStatus (Some (telnetURL\<lparr>User := Some ''LA5NTA''\<rparr>)),
                EvLog (LogConnecting ''wl2k'' ''telnet''),
                EvDial 5 (telnetURL\<lparr>User := Some ''LA5NTA''\<rparr>),
                EvUpdateStatus None, EvLogConn ''connect telnet://wl2k'' 0 (Some 9) None,
                EvExchange 9 ''wl2k'', EvLog LogDisconnected, EvCancel 5,
                EvSleep 1000, EvUpdateStatus None]\<rparr>)"
  by (subst Connect_alias [OF station_telnet_chain])
    (simp add: step_defs call_defs station_defs Method_defs)

text \<open>
  The witness: the first candidate does not parse, the second dials and exchanges, and
  the third is never tried: the trace ends with the second call.
\<close>

theorem connectAny_in_order_witness:
  "connectAny station [''bogus'', ''telnet://wl2k'', ''ardop:///LA1B?freq=3586.5''] idle =
   Some (True, idle\<lparr>dialCancelFunc := Some 5,
      trace := [EvDebug ''bogus'', EvLog (LogError (Failure ''invalid connect url'')),
                EvSleep 1000, EvUpdateStatus None,
                EvDebug ''telnet://wl2k'', EvWithCancel 5,
                EvUpdateStatus (Some (telnetURL\<lparr>User := Some ''LA5NTA''\<rparr>)),
                EvLog (LogConnecting ''wl2k'' ''telnet''),
                EvDial 5 (telnetURL\<lparr>User := Some ''LA5NTA''\<rparr>),
                EvUpdateStatus None, EvLogConn ''connect telnet://wl2k'' 0 (Some 9) None,
                EvExchange 9 ''wl2k'', EvLog LogDisconnected, EvCancel 5,
                EvSleep 1000, EvUpdateStatus None]\<rparr>)"
proof -
  have fails: "allFail station [''bogus''] idle
     (idle\<lparr>trace := [EvDebug ''bogus'', EvLog (LogError (Failure ''invalid connect url'')),
                     EvSleep 1000, EvUpdateStatus None]\<rparr>)"
    by (rule allFail.more [OF station_bogus allFail.none])
  have split: "[''bogus'', ''telnet://wl2k'', ''ardop:///LA1B?freq=3586.5''] =
                 [''bogus''] @ ''telnet://wl2k'' # [''ardop:///LA1B?freq=3586.5'']"
    by simp
  show ?thesis
    using connectAny_in_order
      [of station "[''bogus'', ''telnet://wl2k'', ''ardop:///LA1B?freq=3586.5'']" idle]
      fails station_telnet_after_bogus split
    by blast
qed

subsection \<open>How the trace grows\<close>

lemma grows_refl: "grows P w w"
  by (simp add: grows_def)

lemma grows_trans: "grows P w w1 \<Longrightarrow> grows P w1 w2 \<Longrightarrow> grows P w w2"
  by (auto simp: grows_def)

lemma grows_emit: "P e \<Longrightarrow> grows P w w1 \<Longrightarrow> grows P w (emit e w1)"
  by (auto simp: grows_def emit_def)

lemma callErrD: "callErr env e w = (r, w') \<Longrightarrow> w' = emit e w \<and> r = respErr env (trace w @ [e])"
  by (auto simp: callErr_def)

lemma grows_callOpen: "P e \<Longrightarrow> grows P w w1 \<Longrightarrow> callOpen env h e w1 = (r, w2) \<Longrightarrow> grows P w w2"
  by (auto simp: grows_def emit_def callOpen_def Let_def split: option.splits)

lemma grows_OpenModem:
  "(\<And>e. isModemCall e \<Longrightarrow> P e) \<Longrightarrow> grows P w w1 \<Longrightarrow> OpenModem env c w1 = (r, w2) \<Longrightarrow> grows P w w2"
  by (auto simp: grows_def emit_def OpenModem_def Let_def split: option.splits)

lemma grows_upd [simp]:
  "grows P w (w1\<lparr>adTNC := a\<rparr>) = grows P w w1"
  "grows P w (w1\<lparr>pModem := a\<rparr>) = grows P w w1"
  "grows P w (w1\<lparr>dialing := d\<rparr>) = grows P w w1"
  "grows P w (w1\<lparr>dialCancelFunc := c\<rparr>) = grows P w w1"
  by (simp_all add: grows_def)

lemma initPactorModem_grows:
  assumes P: "\<And>e. isModemCall e \<Longrightarrow> P e"
  shows "grows P w (snd (initPactorModem env c w))"
proof -
  let ?w1 = "case pModem w of None \<Rightarrow> w | Some h \<Rightarrow> emit (EvClose h) w"
  have 1: "grows P w ?w1"
    by (auto split: option.splits intro!: grows_emit grows_refl P)
  obtain p err w2 where o: "OpenModem env c ?w1 = ((p, err), w2)"
    by (metis surj_pair)
  have 2: "grows P w w2" by (rule grows_OpenModem [OF P 1 o])
  show ?thesis
    using 2 o by (auto simp: initPactorModem_def Let_def split: option.splits intro!: grows_emit P)
qed


lemma initVaraModem_grows:
  assumes P: "\<And>e. isModemCall e \<Longrightarrow> P e"
  shows "grows P w (snd (initVaraModem env v s c w))"
proof -
  let ?w1 = "case v of None \<Rightarrow> w | Some h \<Rightarrow> emit (EvClose h) w"
  have 1: "grows P w ?w1"
    by (auto split: option.splits intro!: grows_emit grows_refl P)
  obtain res w2 where o: "callOpen env (length (trace ?w1))
       (EvNewModem (length (trace ?w1)) s (MyCall (fOptions env)) (vHost c) (CmdPort c) (DataPort c)) ?w1 = (res, w2)"
    by (metis surj_pair)
  have 2: "grows P w w2" by (rule grows_callOpen [OF _ 1 o]) (simp add: P)
  show ?thesis
    using 2 o by (auto simp: initVaraModem_def Let_def split: option.splits opened.splits intro!: grows_emit P)
qed

lemma initArdopTNC_grows:
  assumes P: "\<And>e. isModemCall e \<Longrightarrow> P e" and L: "\<And>v. P (EvLog (LogArdopInitialized v))"
  shows "grows P w (snd (initArdopTNC env w))"
proof -
  obtain alive w1 where a: "(case adTNC w of None \<Rightarrow> (False, w)
       | Some h \<Rightarrow> (case callErr env (EvPing h) w of (perr, w') \<Rightarrow> (perr = None, w'))) = (alive, w1)"
    by (metis surj_pair)
  have 1: "grows P w w1"
    using a by (auto split: option.splits prod.splits dest!: callErrD intro!: grows_emit grows_refl P)
  let ?w2 = "case adTNC w1 of None \<Rightarrow> w1 | Some h \<Rightarrow> emit (EvClose h) w1"
  have 2: "grows P w ?w2"
    using 1 by (auto split: option.splits intro!: grows_emit P)
  obtain res w3 where o: "callOpen env (length (trace ?w2))
       (EvOpenTCP (length (trace ?w2)) (Ardop_Addr (config env)) (MyCall (fOptions env)) (Locator (config env))) ?w2 = (res, w3)"
    by (metis surj_pair)
  have 3: "grows P w w3" by (rule grows_callOpen [OF _ 2 o]) (simp add: P)
  have PE: "\<And>e. isModemCall e \<Longrightarrow> P e = True" using P by simp
  have GE: "\<And>e w1. P e \<Longrightarrow> grows P w w1 \<Longrightarrow> grows P w (emit e w1) = True"
    by (simp add: grows_emit)
  show ?thesis
    unfolding initArdopTNC_def a Let_def prod.case o
    using 1 3
    by (simp add: callErr_def PE GE L split: option.splits opened.splits)
qed


lemma initTNCs_grows:
  assumes "\<And>e. isModemCall e \<Longrightarrow> P e" and "\<And>v. P (EvLog (LogArdopInitialized v))"
  shows "grows P w (snd (initTNCs env u w))"
  using assms
  by (simp add: initTNCs_def initArdopTNC_grows initPactorModem_grows initVaraModem_grows grows_refl)

lemma initTNCs_other:
  assumes "Scheme u \<notin> set [MethodArdop, MethodPactor, MethodVaraHF, MethodVaraFM]"
  shows "initTNCs env u w = (None, w)"
  using assms by (simp add: initTNCs_def)

lemma map_of_filter_other: "k' \<noteq> k \<Longrightarrow> map_of (filter (\<lambda>p. fst p \<noteq> k) vs) k' = map_of vs k'"
  by (induction vs) auto

lemma Values_Get_Set_other: "k' \<noteq> k \<Longrightarrow> Values_Get (Values_Set vs k v) k' = Values_Get vs k'"
  by (simp add: Values_Get_def Values_Set_def map_of_filter_other)

lemma Scheme_setDefaults [simp]: "Scheme (setDefaults env u) = Scheme u"
  by (simp add: setDefaults_def SetUser_def Let_def)

lemma Values_Get_setDefaults:
  "k \<noteq> ''hbaud'' \<Longrightarrow> k \<noteq> ''serial_baud'' \<Longrightarrow>
     Values_Get (Params (setDefaults env u)) k = Values_Get (Params u) k"
  by (simp add: setDefaults_def SetUser_def Let_def Values_Get_Set_other)

lemma radioOnly_setDefaults [simp]: "radioOnly env (setDefaults env u) = radioOnly env u"
  by (simp add: radioOnly_def Values_Get_setDefaults)

lemma grows_deferredStatus:
  "P (EvSleep 1000) \<Longrightarrow> (\<And>d. P (EvUpdateStatus d)) \<Longrightarrow> grows P w w1 \<Longrightarrow> grows P w (deferredStatus w1)"
  by (simp add: deferredStatus_def Let_def grows_emit)

lemma growsD: "grows P w w' \<Longrightarrow> \<exists>evs. trace w' = trace w @ evs \<and> list_all P evs"
  by (simp add: grows_def)

subsection \<open>Radio-only with an SSID\<close>

text \<open>
  C5, as amended. When radio-only mode is in effect for the descriptor (by the option or by
  the parameter) and the station callsign contains \<open>-\<close>, \<open>Connect\<close> returns false; it
  issues no dial and commands no frequency change. The modem of the scheme is initialised
  before the radio-only test, so only for a scheme other than ardop, pactor, varahf and
  varafm is it certain that no modem is opened or initialised.
\<close>

theorem radio_only_ssid_rejected:
  assumes chain: "aliasChain env connectStr s"
    and parse: "ParseURL env s = Inr u0"
    and radio: "radioOnly env u0"
    and ssid: "hasSSID (MyCall (fOptions env))"
  shows "\<exists>w' evs. Connect env connectStr w = Some (False, w') \<and> trace w' = trace w @ evs \<and>
           \<not> list_ex isDial evs \<and> \<not> list_ex isFreqChange evs \<and>
           (Scheme u0 \<notin> set [MethodArdop, MethodPactor, MethodVaraHF, MethodVaraFM]
              \<longrightarrow> \<not> list_ex isModemCall evs)"
proof -
  let ?P = "\<lambda>e. \<not> isDial e \<and> \<not> isFreqChange e \<and>
                 (Scheme u0 \<notin> set [MethodArdop, MethodPactor, MethodVaraHF, MethodVaraFM]
                    \<longrightarrow> \<not> isModemCall e)"
  let ?w1 = "emit (EvDebug s) w"
  obtain r w2 where init: "initTNCs env u0 ?w1 = (r, w2)" by (metis surj_pair)
  have 1: "grows ?P w ?w1" by (simp add: grows_emit grows_refl)
  have 2: "grows ?P ?w1 w2"
  proof (cases "Scheme u0 \<in> set [MethodArdop, MethodPactor, MethodVaraHF, MethodVaraFM]")
    case True
    have "grows ?P ?w1 (snd (initTNCs env u0 ?w1))"
    proof (rule initTNCs_grows)
      fix e assume "isModemCall e"
      then show "?P e" using True by (cases e) simp_all
    next
      fix v show "?P (EvLog (LogArdopInitialized v))" by simp
    qed
    then show ?thesis by (simp add: init)
  next
    case False
    then have "initTNCs env u0 ?w1 = (None, ?w1)" by (rule initTNCs_other)
    then show ?thesis using init by (simp add: grows_refl)
  qed
  let ?log = "case r of Some err \<Rightarrow> LogError err | None \<Rightarrow> LogRadioOnlySSID"
  let ?w' = "deferredStatus (emit (EvLog ?log) w2)"
  have prep: "Connect_prepare env s w = Inl (emit (EvLog ?log) w2)"
    using parse init radio ssid
    by (simp add: Connect_prepare_def Let_def radioOnlyStep_def split: option.splits)
  have res: "Connect env connectStr w = Some (False, ?w')"
    by (simp add: Connect_alias [OF chain] Connect_dial_def prep returns_def)
  have "grows ?P w ?w'"
    by (intro grows_deferredStatus grows_emit grows_trans [OF 1 2]) (simp_all split: option.splits)
  then obtain evs where evs: "trace ?w' = trace w @ evs" "list_all ?P evs"
    by (auto dest: growsD)
  from evs(2) have "\<not> list_ex isDial evs \<and> \<not> list_ex isFreqChange evs \<and>
           (Scheme u0 \<notin> set [MethodArdop, MethodPactor, MethodVaraHF, MethodVaraFM]
              \<longrightarrow> \<not> list_ex isModemCall evs)"
    by (auto simp: list_all_iff list_ex_iff)
  with res evs(1) show ?thesis by blast
qed


lemma qsy_grows:
  assumes "\<And>m a. P (EvLog (LogQSY m a))" and "\<And>r. P (EvGetFreq r)" and "\<And>r f. P (EvSetFreq r f)"
    and "P (EvSleep 3000)"
  shows "grows P w (snd (qsy env m a w))"
proof -
  obtain rig name ok err where v: "VFOForTransport env m = (rig, name, ok, err)"
    by (metis prod_cases4)
  show ?thesis
    using assms
    by (simp add: qsy_def v setFreq_def GetFreq_def SetFreq_def callErr_def Let_def grows_emit
        grows_refl split: option.splits sum.splits)
qed

lemma qsy_not_found:
  assumes "VFOForTransport env m = (rig, rigName, False, err)"
  shows "qsy env m a w =
           ((noop, Some (case err of None \<Rightarrow> Errorf (''hamlib rig not loaded: '' @ rigName) | Some e \<Rightarrow> e)), w)"
  using assms by (simp add: qsy_def split: option.splits)

lemma radioOnlyStep_grows:
  assumes "\<And>m. P (EvLog m)"
  shows "grows P w (snd (radioOnlyStep env u w))"
  using assms by (simp add: radioOnlyStep_def grows_emit grows_refl)

lemma radioOnlyStep_url:
  "radioOnlyStep env u w = (Some u', w') \<Longrightarrow>
     Scheme u' = Scheme u \<and> Params u' = Params u \<and> Target u' = Target u \<and> w' = w"
  by (auto simp: radioOnlyStep_def SetUser_def split: if_splits)

subsection \<open>A frequency without a rig\<close>

text \<open>
  C7. When the descriptor carries a \<open>freq\<close> parameter and the rig lookup for its scheme
  finds no rig, \<open>Connect\<close> returns false and its events contain no dial. If the call gets
  as far as the QSY (the modem initialised, radio-only not rejecting), what it leaves is
  the log line "Unable to QSY" with the error of the lookup, or with the rig-not-loaded
  error when the lookup gave none, and then the deferred status update.
\<close>

theorem freq_without_rig:
  assumes chain: "aliasChain env connectStr s"
    and parse: "ParseURL env s = Inr u0"
    and freq: "Values_Get (Params u0) ''freq'' \<noteq> []"
    and norig: "VFOForTransport env (Scheme u0) = (rig, rigName, False, err)"
  shows "\<exists>w' evs. Connect env connectStr w = Some (False, w') \<and> trace w' = trace w @ evs \<and>
           \<not> list_ex isDial evs \<and>
           (\<forall>w2 u. initTNCs env u0 (emit (EvDebug s) w) = (None, w2) \<and>
                   radioOnlyStep env (setDefaults env u0) w2 = (Some u, w2) \<longrightarrow>
              w' = deferredStatus (emit (EvLog (LogUnableQSY
                     (case err of None \<Rightarrow> Errorf (''hamlib rig not loaded: '' @ rigName)
                      | Some e \<Rightarrow> e))) w2))"
proof -
  let ?P = "\<lambda>e. \<not> isDial e"
  let ?qerr = "case err of None \<Rightarrow> Errorf (''hamlib rig not loaded: '' @ rigName) | Some e \<Rightarrow> e"
  let ?w1 = "emit (EvDebug s) w"
  obtain r w2 where init: "initTNCs env u0 ?w1 = (r, w2)" by (metis surj_pair)
  obtain ro w3 where ro: "radioOnlyStep env (setDefaults env u0) w2 = (ro, w3)" by (metis surj_pair)
  have 1: "grows ?P w ?w1" by (simp add: grows_emit grows_refl)
  have "grows ?P ?w1 (snd (initTNCs env u0 ?w1))"
  proof (rule initTNCs_grows)
    fix e assume "isModemCall e"
    then show "?P e" by (cases e) simp_all
  next
    fix v show "?P (EvLog (LogArdopInitialized v))" by simp
  qed
  then have 2: "grows ?P w w2" using 1 init by (auto intro: grows_trans)
  have "grows ?P w2 (snd (radioOnlyStep env (setDefaults env u0) w2))"
    by (rule radioOnlyStep_grows) simp
  then have 3: "grows ?P w w3" using 2 ro by (auto intro: grows_trans)
  let ?wX = "case r of Some e \<Rightarrow> emit (EvLog (LogError e)) w2
             | None \<Rightarrow> (case ro of None \<Rightarrow> w3 | Some u \<Rightarrow> emit (EvLog (LogUnableQSY ?qerr)) w3)"
  have q: "\<And>u. ro = Some u \<Longrightarrow> qsyStep env u w3 = Inl (emit (EvLog (LogUnableQSY ?qerr)) w3)"
  proof -
    fix u assume "ro = Some u"
    with ro have u: "Scheme u = Scheme u0" "Params u = Params (setDefaults env u0)"
      by (auto dest: radioOnlyStep_url)
    have "Values_Get (Params u) ''freq'' \<noteq> []"
      using freq by (simp add: u Values_Get_setDefaults)
    then show "qsyStep env u w3 = Inl (emit (EvLog (LogUnableQSY ?qerr)) w3)"
      by (simp add: qsyStep_def Let_def u qsy_not_found [OF norig])
  qed
  have prep: "Connect_prepare env s w = Inl ?wX"
    using parse init ro q
    by (simp add: Connect_prepare_def Let_def split: option.splits)
  have res: "Connect env connectStr w = Some (False, deferredStatus ?wX)"
    by (simp add: Connect_alias [OF chain] Connect_dial_def prep returns_def)
  have "grows ?P w ?wX"
    using 2 3 by (auto split: option.splits intro!: grows_emit)
  then have "grows ?P w (deferredStatus ?wX)"
    by (intro grows_deferredStatus) simp_all
  then obtain evs where evs: "trace (deferredStatus ?wX) = trace w @ evs" "list_all ?P evs"
    by (auto dest: growsD)
  have nodial: "\<not> list_ex isDial evs"
    using evs(2) by (auto simp: list_all_iff list_ex_iff)
  have reached: "\<forall>w2' u. initTNCs env u0 (emit (EvDebug s) w) = (None, w2') \<and>
                   radioOnlyStep env (setDefaults env u0) w2' = (Some u, w2') \<longrightarrow>
              deferredStatus ?wX = deferredStatus (emit (EvLog (LogUnableQSY ?qerr)) w2')"
    using init ro by auto
  from res evs(1) nodial reached show ?thesis by blast
qed


lemma waitBusyLoop_grows:
  assumes w: "waitBusyLoop env b printed w = Some w'"
    and P: "\<And>b. P (EvBusy b)" "P (EvLog LogWaitingClear)" "P (EvLog LogIgnoringBusy)" "P (EvSleep 300)"
  shows "grows P w w'"
proof (rule waitBusyLoop.raw_induct [where P = "\<lambda>env b printed w w'. grows P w w'", OF _ w])
  fix loop :: "env \<Rightarrow> handle option \<Rightarrow> bool \<Rightarrow> world \<Rightarrow> world option"
    and env b printed w w'
  assume IH: "\<And>env b printed w w'. loop env b printed w = Some w' \<Longrightarrow> grows P w w'"
    and body: "(if respBool env (trace w @ [EvBusy b])
      then if \<not> printed \<and> IgnoreBusy (fOptions env)
           then Some (emit (EvLog LogIgnoringBusy) (emit (EvBusy b) w))
           else if \<not> printed
                then loop env b True
                      (emit (EvSleep 300) (emit (EvLog LogWaitingClear) (emit (EvBusy b) w)))
                else loop env b printed (emit (EvSleep 300) (emit (EvBusy b) w))
      else Some (emit (EvBusy b) w)) = Some w'"
  have first: "grows P (emit (EvSleep 300) (emit (EvLog LogWaitingClear) (emit (EvBusy b) w))) w'
                 \<Longrightarrow> grows P w w'"
    using P by (auto simp: grows_def emit_def)
  have later: "grows P (emit (EvSleep 300) (emit (EvBusy b) w)) w' \<Longrightarrow> grows P w w'"
    using P by (auto simp: grows_def emit_def)
  show "grows P w w'"
    using body first later
    by (auto split: if_splits dest!: IH intro!: grows_emit grows_refl P)
qed

lemma snapshotFreq_grows:
  assumes "\<And>r. P (EvGetFreq r)"
  shows "grows P w (snd (snapshotFreq env u w))"
proof -
  obtain rig name ok err where v: "VFOForTransport env (Scheme u) = (rig, name, ok, err)"
    by (metis prod_cases4)
  show ?thesis
    using assms by (simp add: snapshotFreq_def v GetFreq_def Let_def grows_emit grows_refl)
qed

lemma Connect_wait_grows:
  assumes w: "Connect_wait env u w4 = Some (f, w6)"
    and P: "\<And>r. P (EvGetFreq r)" "\<And>b. P (EvBusy b)" "P (EvLog LogWaitingClear)"
      "P (EvLog LogIgnoringBusy)" "P (EvSleep 300)"
  shows "grows P w4 w6"
proof -
  obtain f' w5 where s: "snapshotFreq env u w4 = (f', w5)" by (metis surj_pair)
  have 1: "grows P w4 w5"
    using snapshotFreq_grows [of P w4 env u] P(1) s by simp
  have "grows P w5 w6"
    using w s P(2-5)
    by (auto simp: Connect_wait_def waitBusy_def grows_refl split: if_splits Option.bind_splits
        intro: waitBusyLoop_grows)
  with 1 show ?thesis by (rule grows_trans)
qed

lemma returns_shape:
  "dialing (h w) = None \<Longrightarrow> grows P w0 (h w) \<Longrightarrow>
     \<exists>success wX. returns b (h # ds0) w = Some (success, fold (\<lambda>d. d) ds0 wX) \<and>
        dialing wX = None \<and> grows P w0 wX"
  by (auto simp: returns_def)

lemma dialAndExchange_result:
  assumes P: "\<And>c. P (EvWithCancel c)" "\<And>d. P (EvUpdateStatus d)" "\<And>t m. P (EvLog (LogConnecting t m))"
    "P (EvLog LogCancelled)" "\<And>e. P (EvLog (LogUnableConnect e))"
    "\<And>e. P (EvLog (LogExchangeFailed e))" "P (EvLog LogDisconnected)"
    "\<And>c u. P (EvDial c u)" "\<And>c. P (EvCancel c)" "\<And>s f c e. P (EvLogConn s f c e)"
    "\<And>c t. P (EvExchange c t)"
  shows "\<exists>success wX. dialAndExchange env cs u f ds0 w0 = Some (success, fold (\<lambda>d. d) ds0 wX) \<and>
           dialing wX = None \<and> grows P w0 wX"
proof -
  have GE: "\<And>e w1. P e \<Longrightarrow> grows P w0 w1 \<Longrightarrow> grows P w0 (emit e w1) = True"
    by (simp add: grows_emit)
  have d [simp]: "\<And>e w. dialing (emit e w) = dialing w" by (simp add: emit_def)
  have c [simp]: "\<And>e w. dialCancelFunc (emit e w) = dialCancelFunc w" by (simp add: emit_def)
  show ?thesis
    unfolding dialAndExchange_def Let_def
    by (auto simp: DialURLContext_def exchange_def callErr_def callCancelFunc_def
        Let_def GE P grows_refl split: option.splits intro!: returns_shape)
qed


lemma Connect_prepare_InrD:
  assumes "Connect_prepare env s w = Inr (u, dq, w4)"
  shows "\<exists>u0 w2. ParseURL env s = Inr u0 \<and> initTNCs env u0 (emit (EvDebug s) w) = (None, w2) \<and>
           radioOnlyStep env (setDefaults env u0) w2 = (Some u, w2) \<and> qsyStep env u w2 = Inr (dq, w4)"
proof -
  obtain u0 where p: "ParseURL env s = Inr u0"
    using assms by (cases "ParseURL env s") (simp_all add: Connect_prepare_def Let_def)
  obtain r w2 where i: "initTNCs env u0 (emit (EvDebug s) w) = (r, w2)" by (metis surj_pair)
  obtain ro w3 where ro: "radioOnlyStep env (setDefaults env u0) w2 = (ro, w3)" by (metis surj_pair)
  have r: "r = None"
    using assms p i by (cases r) (simp_all add: Connect_prepare_def Let_def)
  have rs: "ro = Some u \<and> qsyStep env u w3 = Inr (dq, w4)"
    using assms p i r ro
    by (cases ro; cases "qsyStep env (the ro) w3") (auto simp: Connect_prepare_def Let_def)
  then have "w3 = w2" using ro by (auto dest: radioOnlyStep_url)
  with p i r ro rs show ?thesis by auto
qed

lemma qsy_successD:
  assumes "qsy env m a w3 = ((revert, None), w4)"
  shows "\<exists>rig name new. VFOForTransport env m = (rig, name, True, None) \<and>
           revert = revertFreq m rig (respInt env (trace w3 @ [EvLog (LogQSY m a), EvGetFreq rig])) \<and>
           trace w4 = trace w3 @ [EvLog (LogQSY m a), EvGetFreq rig, EvSetFreq rig new, EvSleep 3000]"
proof -
  obtain rig name ok err where v: "VFOForTransport env m = (rig, name, ok, err)"
    by (metis prod_cases4)
  show ?thesis
    using assms
    by (auto simp: qsy_def v setFreq_def GetFreq_def SetFreq_def callErr_def Let_def emit_def
        split: option.splits sum.splits if_splits)
qed

lemma qsyStep_InrD:
  assumes "qsyStep env u w3 = Inr (dq, w4)" and "Values_Get (Params u) ''freq'' \<noteq> []"
  shows "\<exists>revert. dq = [revert] \<and>
           qsy env (Scheme u) (Values_Get (Params u) ''freq'') w3 = ((revert, None), w4)"
proof -
  obtain revert err w1 where q: "qsy env (Scheme u) (Values_Get (Params u) ''freq'') w3 = ((revert, err), w1)"
    by (metis surj_pair)
  show ?thesis
    using assms by (cases err) (auto simp: qsyStep_def Let_def q)
qed


lemma trace_deferredStatus:
  "trace (deferredStatus w) = trace w @ [EvSleep 1000, EvUpdateStatus (dialing w)]"
  by (simp add: deferredStatus_def emit_def Let_def)

lemma trace_revertFreq:
  "trace (revertFreq m rig f w) = trace w @ [EvSleep 1000, EvLog (LogQSX m f), EvSetFreq rig f]"
  by (simp add: revertFreq_def emit_def)

lemma dialing_revertFreq [simp]: "dialing (revertFreq m rig f w) = dialing w"
  by (simp add: revertFreq_def emit_def)

lemma dialing_deferredStatus [simp]: "dialing (deferredStatus w) = dialing w"
  by (simp add: deferredStatus_def emit_def Let_def)

subsection \<open>The frequency is reverted exactly once\<close>

text \<open>
  A call gets past the QSY with a \<open>freq\<close> parameter exactly when \<open>qsy\<close> was called and
  succeeded: one direction is the lemma below, the other is part of the theorem.
\<close>

lemma Connect_prepare_after_qsy:
  assumes "ParseURL env s = Inr u0"
    and "initTNCs env u0 (emit (EvDebug s) w) = (None, w2)"
    and "radioOnlyStep env (setDefaults env u0) w2 = (Some u, w3)"
    and "Values_Get (Params u) ''freq'' \<noteq> []"
    and "qsy env (Scheme u) (Values_Get (Params u) ''freq'') w3 = ((revert, None), w4)"
  shows "Connect_prepare env s w = Inr (u, [revert], w4)"
  using assms by (simp add: Connect_prepare_def qsyStep_def Let_def)

text \<open>
  C1. Take a call of \<open>Connect\<close> that gets past the QSY with a \<open>freq\<close> parameter in its
  descriptor, and that returns, with whatever result (the dial succeeded, failed, was
  cancelled, or the exchange failed). Then \<open>qsy\<close> found a rig and succeeded; the frequency
  it remembers is the answer of the rig to the read that comes before the frequency
  change; and the events of the call after the QSY are: events none of which is the log
  line or the frequency command of a revert, then the revert (its sleep, its log line
  "QSX", the command of the remembered frequency to that rig), then the deferred status
  update. So the revert ran once, after the dial and before the return.
\<close>

theorem revert_runs_exactly_once:
  assumes chain: "aliasChain env connectStr s"
    and prep: "Connect_prepare env s w = Inr (u, dq, w4)"
    and freq: "Values_Get (Params u) ''freq'' \<noteq> []"
    and ret: "Connect env connectStr w = Some (success, w')"
  shows "\<exists>rig rigName newFreq oldFreq w3 evs.
           VFOForTransport env (Scheme u) = (rig, rigName, True, None) \<and>
           qsy env (Scheme u) (Values_Get (Params u) ''freq'') w3 =
             ((revertFreq (Scheme u) rig oldFreq, None), w4) \<and>
           oldFreq = respInt env (trace w3 @ [EvLog (LogQSY (Scheme u) (Values_Get (Params u) ''freq'')),
                                               EvGetFreq rig]) \<and>
           trace w4 = trace w3 @ [EvLog (LogQSY (Scheme u) (Values_Get (Params u) ''freq'')),
                                  EvGetFreq rig, EvSetFreq rig newFreq, EvSleep 3000] \<and>
           trace w' = trace w4 @ evs @ [EvSleep 1000, EvLog (LogQSX (Scheme u) oldFreq),
                                         EvSetFreq rig oldFreq, EvSleep 1000, EvUpdateStatus None] \<and>
           \<not> list_ex isRevert evs"
proof -
  let ?P = "\<lambda>e. \<not> isRevert e"
  let ?freq = "Values_Get (Params u) ''freq''"
  from Connect_prepare_InrD [OF prep] obtain w3 where q: "qsyStep env u w3 = Inr (dq, w4)"
    by blast
  from qsyStep_InrD [OF q freq] obtain revert where
    dq: "dq = [revert]" and qsy: "qsy env (Scheme u) ?freq w3 = ((revert, None), w4)"
    by blast
  from qsy_successD [OF qsy] obtain rig name new where
    v: "VFOForTransport env (Scheme u) = (rig, name, True, None)"
    and rev: "revert = revertFreq (Scheme u) rig (respInt env (trace w3 @ [EvLog (LogQSY (Scheme u) ?freq), EvGetFreq rig]))"
    and t4: "trace w4 = trace w3 @ [EvLog (LogQSY (Scheme u) ?freq), EvGetFreq rig, EvSetFreq rig new, EvSleep 3000]"
    by blast
  let ?old = "respInt env (trace w3 @ [EvLog (LogQSY (Scheme u) ?freq), EvGetFreq rig])"
  have "Connect_dial env s w = Some (success, w')"
    using ret by (simp add: Connect_alias [OF chain])
  then obtain f w6 where wait: "Connect_wait env u w4 = Some (f, w6)"
    and dial: "dialAndExchange env s u f [revert, deferredStatus] w6 = Some (success, w')"
    by (auto simp: Connect_dial_def prep dq split: Option.bind_splits)
  have 1: "grows ?P w4 w6"
    by (rule Connect_wait_grows [OF wait]) simp_all
  obtain b wX where res: "dialAndExchange env s u f [revert, deferredStatus] w6 =
        Some (b, fold (\<lambda>d. d) [revert, deferredStatus] wX)"
    and dX: "dialing wX = None" and 2: "grows ?P w6 wX"
    using dialAndExchange_result [of ?P env s u f "[revert, deferredStatus]" w6] by auto
  have w': "w' = deferredStatus (revert wX)"
    using dial res by simp
  from grows_trans [OF 1 2] obtain evs where evs: "trace wX = trace w4 @ evs" "list_all ?P evs"
    by (auto dest: growsD)
  have "trace w' = trace w4 @ evs @ [EvSleep 1000, EvLog (LogQSX (Scheme u) ?old),
                                      EvSetFreq rig ?old, EvSleep 1000, EvUpdateStatus None]"
    by (simp add: w' rev trace_deferredStatus trace_revertFreq evs(1) dX)
  moreover have "\<not> list_ex isRevert evs"
    using evs(2) by (auto simp: list_all_iff list_ex_iff)
  ultimately show ?thesis
    using v qsy rev t4 by blast
qed


subsection \<open>Cancellation during the dial\<close>






subsection \<open>Initialising a modem again\<close>

text \<open>
  C3, as amended. \<open>initArdopTNC\<close>, called with a TNC that answers the ping, only pings: it
  opens and closes nothing. Called with a TNC that does not answer the ping, it closes
  that TNC once and then opens a new one; nothing else is opened or closed.
  \<open>initPactorModem\<close> and \<open>initVaraModem\<close> have no liveness probe and do not reuse: called
  with a modem that is not nil, they close it once and then open a new one, each time,
  and open or close nothing else.
\<close>

theorem modem_reinitialisation:
  "(adTNC w = Some h \<and> respErr env (trace w @ [EvPing h]) = None \<longrightarrow>
      initArdopTNC env w = (None, emit (EvPing h) w)) \<and>
   (adTNC w = Some h \<and> respErr env (trace w @ [EvPing h]) \<noteq> None \<longrightarrow>
      (\<exists>evs. trace (snd (initArdopTNC env w)) =
                trace w @ [EvPing h, EvClose h,
                           EvOpenTCP (length (trace w) + 2) (Ardop_Addr (config env))
                             (MyCall (fOptions env)) (Locator (config env))] @ evs \<and>
              \<not> list_ex isOpenOrClose evs)) \<and>
   (pModem w = Some h \<longrightarrow>
      (\<exists>evs. trace (snd (initPactorModem env cmdlineinit w)) =
                trace w @ [EvClose h,
                           EvOpenModem (length (trace w) + 1) (Pactor_Path (config env))
                             (Pactor_Baudrate (config env)) (MyCall (fOptions env))
                             (Pactor_InitScript (config env)) cmdlineinit] @ evs \<and>
              \<not> list_ex isOpenOrClose evs)) \<and>
   (\<exists>evs. trace (snd (initVaraModem env (Some h) scheme conf w)) =
             trace w @ [EvClose h,
                        EvNewModem (length (trace w) + 1) scheme (MyCall (fOptions env))
                          (vHost conf) (CmdPort conf) (DataPort conf)] @ evs \<and>
           \<not> list_ex isOpenOrClose evs)"
proof (intro conjI impI)
  assume "adTNC w = Some h \<and> respErr env (trace w @ [EvPing h]) = None"
  then show "initArdopTNC env w = (None, emit (EvPing h) w)"
    by (simp add: initArdopTNC_def callErr_def)
next
  assume "adTNC w = Some h \<and> respErr env (trace w @ [EvPing h]) \<noteq> None"
  then show "\<exists>evs. trace (snd (initArdopTNC env w)) =
                trace w @ [EvPing h, EvClose h,
                           EvOpenTCP (length (trace w) + 2) (Ardop_Addr (config env))
                             (MyCall (fOptions env)) (Locator (config env))] @ evs \<and>
              \<not> list_ex isOpenOrClose evs"
    by (simp add: initArdopTNC_def callErr_def callOpen_def emit_def Let_def isOpenOrClose_def
        split: option.splits)
next
  assume "pModem w = Some h"
  then show "\<exists>evs. trace (snd (initPactorModem env cmdlineinit w)) =
                trace w @ [EvClose h,
                           EvOpenModem (length (trace w) + 1) (Pactor_Path (config env))
                             (Pactor_Baudrate (config env)) (MyCall (fOptions env))
                             (Pactor_InitScript (config env)) cmdlineinit] @ evs \<and>
              \<not> list_ex isOpenOrClose evs"
    by (simp add: initPactorModem_def OpenModem_def emit_def Let_def isOpenOrClose_def
        split: option.splits)
next
  show "\<exists>evs. trace (snd (initVaraModem env (Some h) scheme conf w)) =
             trace w @ [EvClose h,
                        EvNewModem (length (trace w) + 1) scheme (MyCall (fOptions env))
                          (vHost conf) (CmdPort conf) (DataPort conf)] @ evs \<and>
           \<not> list_ex isOpenOrClose evs"
    by (simp add: initVaraModem_def callOpen_def emit_def Let_def isOpenOrClose_def
        split: option.splits)
qed

subsection \<open>Concrete runs of the station\<close>

lemma station_ardop_chain: "aliasChain station ''ardop:///LA1B?freq=3586.5'' ''ardop:///LA1B?freq=3586.5''"
  by (rule aliasChain.direct) (simp_all add: station_defs)

lemma station_vara_chain: "aliasChain station ''varahf:///LA1B'' ''varahf:///LA1B''"
  by (rule aliasChain.direct) (simp_all add: station_defs)

lemma ssidStation_telnet_chain: "aliasChain ssidStation ''telnet://wl2k'' ''telnet://wl2k''"
  by (rule aliasChain.direct) (simp_all add: ssidStation_def station_defs)

lemma ssidStation_ardop_chain:
  "aliasChain ssidStation ''ardop:///LA1B?freq=3586.5'' ''ardop:///LA1B?freq=3586.5''"
  by (rule aliasChain.direct) (simp_all add: ssidStation_def station_defs)

lemma noRigStation_ardop_chain:
  "aliasChain noRigStation ''ardop:///LA1B?freq=3586.5'' ''ardop:///LA1B?freq=3586.5''"
  by (rule aliasChain.direct) (simp_all add: noRigStation_def station_defs)

text \<open>
  The witness of C3: a TNC that answers the ping, a TNC that does not, a PACTOR modem and
  a VARA modem, each initialised again.
\<close>

theorem modem_reinitialisation_witness:
  "initArdopTNC station (idle\<lparr>adTNC := Some 7\<rparr>) = (None, idle\<lparr>adTNC := Some 7, trace := [EvPing 7]\<rparr>) \<and>
   (\<exists>evs. trace (snd (initArdopTNC deadTNCStation (idle\<lparr>adTNC := Some 7\<rparr>))) =
            [EvPing 7, EvClose 7, EvOpenTCP 2 ''localhost:8515'' ''LA5NTA'' ''JP20qe''] @ evs \<and>
          \<not> list_ex isOpenOrClose evs) \<and>
   (\<exists>evs. trace (snd (initPactorModem pactorStation [] (idle\<lparr>pModem := Some 7\<rparr>))) =
            [EvClose 7, EvOpenModem 1 ''/dev/ttyUSB0'' 57600 ''LA5NTA'' [] []] @ evs \<and>
          \<not> list_ex isOpenOrClose evs) \<and>
   (\<exists>evs. trace (snd (initVaraModem station (Some 7) ''varahf'' stationVara idle)) =
            [EvClose 7, EvNewModem 1 ''varahf'' ''LA5NTA'' ''localhost'' 8300 8301] @ evs \<and>
          \<not> list_ex isOpenOrClose evs)"
proof -
  note alive = modem_reinitialisation [where env = station and w = "idle\<lparr>adTNC := Some 7\<rparr>"
      and h = 7 and cmdlineinit = "[]" and scheme = "''varahf''" and conf = stationVara,
      THEN conjunct1]
  note dead = modem_reinitialisation [where env = deadTNCStation and w = "idle\<lparr>adTNC := Some 7\<rparr>"
      and h = 7 and cmdlineinit = "[]" and scheme = "''varahf''" and conf = stationVara,
      THEN conjunct2, THEN conjunct1]
  note pactor = modem_reinitialisation [where env = pactorStation and w = "idle\<lparr>pModem := Some 7\<rparr>"
      and h = 7 and cmdlineinit = "[]" and scheme = "''varahf''" and conf = stationVara,
      THEN conjunct2, THEN conjunct2, THEN conjunct1]
  note vara = modem_reinitialisation [where env = station and w = idle
      and h = 7 and cmdlineinit = "[]" and scheme = "''varahf''" and conf = stationVara,
      THEN conjunct2, THEN conjunct2, THEN conjunct2]
  have a: "initArdopTNC station (idle\<lparr>adTNC := Some 7\<rparr>) =
             (None, idle\<lparr>adTNC := Some 7, trace := [EvPing 7]\<rparr>)"
    using alive by (simp add: station_def idle_def emit_def)
  have b: "\<exists>evs. trace (snd (initArdopTNC deadTNCStation (idle\<lparr>adTNC := Some 7\<rparr>))) =
            [EvPing 7, EvClose 7, EvOpenTCP 2 ''localhost:8515'' ''LA5NTA'' ''JP20qe''] @ evs \<and>
          \<not> list_ex isOpenOrClose evs"
    using dead
    by (simp add: deadTNCStation_def station_def stationConfig_def idle_def numeral_2_eq_2 [symmetric])
  have c: "\<exists>evs. trace (snd (initPactorModem pactorStation [] (idle\<lparr>pModem := Some 7\<rparr>))) =
            [EvClose 7, EvOpenModem 1 ''/dev/ttyUSB0'' 57600 ''LA5NTA'' [] []] @ evs \<and>
          \<not> list_ex isOpenOrClose evs"
    using pactor by (simp add: pactorStation_def station_def stationConfig_def idle_def)
  have d: "\<exists>evs. trace (snd (initVaraModem station (Some 7) ''varahf'' stationVara idle)) =
            [EvClose 7, EvNewModem 1 ''varahf'' ''LA5NTA'' ''localhost'' 8300 8301] @ evs \<and>
          \<not> list_ex isOpenOrClose evs"
    using vara by (simp add: station_def stationVara_def idle_def)
  from a b c d show ?thesis by blast
qed

text \<open>
  The counterexample to C3 as stated: PACTOR has no liveness probe, and the modem that the
  first call opened is not nil and nothing has happened to it; yet the second call closes
  it and opens another.
\<close>

theorem pactor_reuse_counterexample:
  "initPactorModem pactorStation [] idle =
     (None, idle\<lparr>pModem := Some 0,
                  trace := [EvOpenModem 0 ''/dev/ttyUSB0'' 57600 ''LA5NTA'' [] [],
                            EvRegisterDialer ''pactor'' 0]\<rparr>) \<and>
   filter isOpenOrClose
     (drop 2 (trace (snd (initPactorModem pactorStation []
        (idle\<lparr>pModem := Some 0,
               trace := [EvOpenModem 0 ''/dev/ttyUSB0'' 57600 ''LA5NTA'' [] [],
                         EvRegisterDialer ''pactor'' 0]\<rparr>))))) =
     [EvClose 0, EvOpenModem 3 ''/dev/ttyUSB0'' 57600 ''LA5NTA'' [] []]"
  by (simp add: initPactorModem_def OpenModem_def emit_def Let_def isOpenOrClose_def
      pactorStation_def station_defs Method_defs)

text \<open>The witness of C5: a telnet descriptor, for which no modem is initialised either.\<close>

theorem radio_only_ssid_rejected_witness:
  "\<exists>w' evs. Connect ssidStation ''telnet://wl2k'' idle = Some (False, w') \<and> trace w' = evs \<and>
     \<not> list_ex isDial evs \<and> \<not> list_ex isFreqChange evs \<and> \<not> list_ex isModemCall evs"
proof -
  have parse: "ParseURL ssidStation ''telnet://wl2k'' = Inr telnetURL"
    by (simp add: ssidStation_def station_defs)
  have radio: "radioOnly ssidStation telnetURL"
    by (simp add: radioOnly_def Values_Get_def ssidStation_def station_defs)
  have ssid: "hasSSID (MyCall (fOptions ssidStation))"
    by (simp add: hasSSID_def ssidStation_def station_defs)
  show ?thesis
    using radio_only_ssid_rejected [OF ssidStation_telnet_chain parse radio ssid, of idle]
    by (simp add: idle_def telnetURL_def Method_defs)
qed

text \<open>
  The counterexample to C5 as stated: with an ARDOP descriptor the TNC is opened and
  configured before the call is rejected for the SSID.
\<close>

theorem radio_only_ssid_counterexample:
  "ParseURL ssidStation ''ardop:///LA1B?freq=3586.5'' = Inr ardopURL \<and>
   radioOnly ssidStation ardopURL \<and> hasSSID (MyCall (fOptions ssidStation)) \<and>
   Connect ssidStation ''ardop:///LA1B?freq=3586.5'' idle =
     Some (False, idle\<lparr>adTNC := Some 1,
       trace := [EvDebug ''ardop:///LA1B?freq=3586.5'',
                 EvOpenTCP 1 ''localhost:8515'' ''LA5NTA-1'' ''JP20qe'', EvSetCWID 1 True,
                 EvVersion 1, EvLog (LogArdopInitialized ''1.0''), EvRegisterDialer ''ardop'' 1,
                 EvLog LogRadioOnlySSID, EvSleep 1000, EvUpdateStatus None]\<rparr>) \<and>
   list_ex isModemCall (trace (snd (the (Connect ssidStation ''ardop:///LA1B?freq=3586.5'' idle))))"
  unfolding Connect_alias [OF ssidStation_ardop_chain]
  by (simp add: step_defs call_defs ssidStation_def station_defs Method_defs)

text \<open>
  C2. The VARA modem that \<open>initVaraModem\<close> opens is assigned to its parameter, not to
  \<open>varaHFModem\<close>. Two calls of \<open>Connect\<close> on a VARA HF descriptor, both successful, open
  two modems and close none, and \<open>varaHFModem\<close> is still nil afterwards: the first modem
  is referenced by no variable and will not be closed.
\<close>

theorem vara_handle_leak:
  "map_option (\<lambda>(ok, w'). (ok, varaHFModem w', filter isOpenOrClose (trace w')))
     (Option.bind (Connect station ''varahf:///LA1B'' idle)
        (\<lambda>(ok, w1). Connect station ''varahf:///LA1B'' w1)) =
   Some (True, None, [EvNewModem 1 ''varahf'' ''LA5NTA'' ''localhost'' 8300 8301,
                      EvNewModem 15 ''varahf'' ''LA5NTA'' ''localhost'' 8300 8301])"
  unfolding Connect_alias [OF station_vara_chain]
  by (simp add: step_defs call_defs station_defs Method_defs isOpenOrClose_def)


text \<open>The witness of C7: an ARDOP descriptor with a frequency, and no rig for ARDOP.\<close>

theorem freq_without_rig_witness:
  "\<exists>w' evs. Connect noRigStation ''ardop:///LA1B?freq=3586.5'' idle = Some (False, w') \<and>
     trace w' = evs \<and> \<not> list_ex isDial evs \<and>
     w' = deferredStatus
            (emit (EvLog (LogUnableQSY (Errorf ''hamlib rig not loaded: ic706''))) ardopReady)"
proof -
  have parse: "ParseURL noRigStation ''ardop:///LA1B?freq=3586.5'' = Inr ardopURL"
    by (simp add: noRigStation_def station_defs)
  have freq: "Values_Get (Params ardopURL) ''freq'' \<noteq> []"
    by (simp add: Values_Get_def ardopURL_def)
  have norig: "VFOForTransport noRigStation (Scheme ardopURL) = (0, ''ic706'', False, None)"
    by (simp add: noRigStation_def station_defs)
  have init: "initTNCs noRigStation ardopURL (emit (EvDebug ''ardop:///LA1B?freq=3586.5'') idle) =
                (None, ardopReady)"
    by (simp add: step_defs call_defs noRigStation_def station_defs ardopUser_def ardopReady_def Method_defs)
  have ro: "radioOnlyStep noRigStation (setDefaults noRigStation ardopURL) ardopReady =
              (Some ardopUser, ardopReady)"
    by (simp add: step_defs call_defs noRigStation_def station_defs ardopUser_def ardopReady_def Method_defs)
  from freq_without_rig [OF noRigStation_ardop_chain parse freq norig, of idle]
  obtain w' evs where
    "Connect noRigStation ''ardop:///LA1B?freq=3586.5'' idle = Some (False, w')"
    "trace w' = trace idle @ evs" "\<not> list_ex isDial evs"
    "\<forall>w2 u. initTNCs noRigStation ardopURL (emit (EvDebug ''ardop:///LA1B?freq=3586.5'') idle) = (None, w2) \<and>
            radioOnlyStep noRigStation (setDefaults noRigStation ardopURL) w2 = (Some u, w2) \<longrightarrow>
       w' = deferredStatus (emit (EvLog (LogUnableQSY
              (case None of None \<Rightarrow> Errorf (''hamlib rig not loaded: '' @ ''ic706'') | Some e \<Rightarrow> e))) w2)"
    by blast
  with init ro show ?thesis by (auto simp: idle_def)
qed

text \<open>The witness of C1: an ARDOP descriptor with a frequency, dialled with success.\<close>

theorem revert_runs_exactly_once_witness:
  "Connect station ''ardop:///LA1B?freq=3586.5'' idle = Some (True, ardopDone) \<and>
   (\<exists>evs. trace ardopDone =
            trace ardopTuned @ evs @ [EvSleep 1000, EvLog (LogQSX ''ardop'' 7100000),
                                      EvSetFreq 0 7100000, EvSleep 1000, EvUpdateStatus None] \<and>
          \<not> list_ex isRevert evs)"
proof -
  have prep: "Connect_prepare station ''ardop:///LA1B?freq=3586.5'' idle =
                Inr (ardopUser, [revertFreq ''ardop'' 0 7100000], ardopTuned)"
    by (simp add: step_defs call_defs station_defs ardopUser_def ardopReady_def ardopTuned_def ardopDone_def Method_defs)
  have freq: "Values_Get (Params ardopUser) ''freq'' \<noteq> []"
    by (simp add: Values_Get_def ardopUser_def ardopURL_def)
  have ret: "Connect station ''ardop:///LA1B?freq=3586.5'' idle = Some (True, ardopDone)"
    unfolding Connect_alias [OF station_ardop_chain]
    by (simp add: step_defs call_defs station_defs ardopUser_def ardopReady_def ardopTuned_def ardopDone_def Method_defs waitBusy_clear)
  have vfo: "VFOForTransport station ''ardop'' = (0, ''ic706'', True, None)"
    by (simp add: station_defs)
  have old: "\<And>h. respInt station h = 7100000"
    by (simp add: station_def)
  have scheme: "Scheme ardopUser = ''ardop''"
    by (simp add: ardopUser_def ardopURL_def)
  have found: "\<exists>evs. trace ardopDone =
            trace ardopTuned @ evs @ [EvSleep 1000, EvLog (LogQSX ''ardop'' 7100000),
                                      EvSetFreq 0 7100000, EvSleep 1000, EvUpdateStatus None] \<and>
          \<not> list_ex isRevert evs"
    if "VFOForTransport station ''ardop'' = (rig, rigName, True, None)"
      and "oldFreq = 7100000"
      and "trace ardopDone = trace ardopTuned @ evs @ [EvSleep 1000, EvLog (LogQSX ''ardop'' oldFreq),
              EvSetFreq rig oldFreq, EvSleep 1000, EvUpdateStatus None]"
      and "\<not> list_ex isRevert evs"
    for rig rigName oldFreq evs
  proof -
    have "rig = 0" using that(1) by (simp add: vfo)
    with that(2,3) have "trace ardopDone = trace ardopTuned @ evs @ [EvSleep 1000,
              EvLog (LogQSX ''ardop'' 7100000), EvSetFreq 0 7100000, EvSleep 1000,
              EvUpdateStatus None]"
      by simp
    with that(4) show ?thesis by (intro exI conjI)
  qed
  have "\<exists>evs. trace ardopDone =
            trace ardopTuned @ evs @ [EvSleep 1000, EvLog (LogQSX ''ardop'' 7100000),
                                      EvSetFreq 0 7100000, EvSleep 1000, EvUpdateStatus None] \<and>
          \<not> list_ex isRevert evs"
    using revert_runs_exactly_once [OF station_ardop_chain prep freq ret]
    unfolding old scheme
    by (elim exE conjE) (rule found; assumption)
  with ret show ?thesis by (rule conjI)
qed

end
